(* ===== verification/Prelude.thy ===== *)
theory Prelude
  imports Main "HOL-Library.Word"
begin

text \<open>
  Shared vocabulary of the development: the names of the model's types, the
  collections of simplification rules the component theories extend, and the
  semantics of the JavaScript built-ins that \<open>src/src/pages/CreatePoint/index.tsx\<close>
  calls: \<open>Array.prototype.findIndex\<close>, \<open>Array.prototype.join\<close>, \<open>String(n)\<close> on
  an integral number, and the comma split by which the backend reads the joined
  \<open>items\<close> field back. These are library semantics, not code of the repository;
  they are written here once so that every component uses the same reading.
\<close>

named_theorems page_simps "equations of the CreatePoint handlers"
named_theorems app_simps "equations of the application step"

section \<open>Types\<close>

text \<open>
  JavaScript numbers that the page uses as identifiers hold integers (the
  backend's item ids), so they are \<open>int\<close>; equality is \<open>===\<close> on them.
  A byte of an uploaded file is an \<open>8 word\<close>.
\<close>

type_synonym js_int = int
type_synonym byte = "8 word"

section \<open>Array.prototype.findIndex\<close>

text \<open>
  \<open>xs.findIndex(p)\<close> scans from index 0 and returns the first index whose
  element satisfies \<open>p\<close>, or \<open>-1\<close>.
\<close>

fun js_find_index_from :: "('a \<Rightarrow> bool) \<Rightarrow> int \<Rightarrow> 'a list \<Rightarrow> int" where
  "js_find_index_from p k [] = -1"
| "js_find_index_from p k (x # xs) = (if p x then k else js_find_index_from p (k + 1) xs)"

definition js_find_index :: "('a \<Rightarrow> bool) \<Rightarrow> 'a list \<Rightarrow> int" where
  "js_find_index p xs = js_find_index_from p 0 xs"

section \<open>Array.prototype.join\<close>

text \<open>\<open>[a, b, c].join(sep)\<close> is \<open>a + sep + b + sep + c\<close>; the empty array gives \<open>""\<close>.\<close>

fun js_join :: "string \<Rightarrow> string list \<Rightarrow> string" where
  "js_join sep [] = []"
| "js_join sep [x] = x"
| "js_join sep (x # y # ys) = x @ sep @ js_join sep (y # ys)"

section \<open>String(n) on integral numbers\<close>

text \<open>
  For an integer of magnitude below \<open>10^21\<close> (every item id), JavaScript prints
  the shortest decimal numeral, with a leading \<open>-\<close> when negative and no leading
  zeros.
\<close>

definition digit_char :: "nat \<Rightarrow> char" where
  "digit_char d = ''0123456789'' ! d"

fun dec_nat :: "nat \<Rightarrow> string" where
  "dec_nat n = (if n < 10 then [digit_char n] else dec_nat (n div 10) @ [digit_char (n mod 10)])"

declare dec_nat.simps [simp del]

definition js_int_to_string :: "js_int \<Rightarrow> string" where
  "js_int_to_string i = (if i < 0 then CHR ''-'' # dec_nat (nat (- i)) else dec_nat (nat i))"

section \<open>Reading a decimal numeral back\<close>

definition digit_val :: "char \<Rightarrow> nat option" where
  "digit_val c = (if c \<in> set ''0123456789'' then Some (of_char c - 48) else None)"

fun parse_nat_acc :: "nat \<Rightarrow> string \<Rightarrow> nat option" where
  "parse_nat_acc acc [] = Some acc"
| "parse_nat_acc acc (c # cs) =
     (case digit_val c of None \<Rightarrow> None | Some d \<Rightarrow> parse_nat_acc (10 * acc + d) cs)"

definition parse_int :: "string \<Rightarrow> js_int option" where
  "parse_int s =
     (case s of
        [] \<Rightarrow> None
      | c # r \<Rightarrow>
          if c = CHR ''-'' then (if r = [] then None else map_option (\<lambda>n. - int n) (parse_nat_acc 0 r))
          else map_option int (parse_nat_acc 0 s))"

section \<open>Splitting at a separator\<close>

text \<open>\<open>s.split(",")\<close>: the pieces between separators; \<open>"".split(",")\<close> is \<open>[""]\<close>.\<close>

fun split_on :: "char \<Rightarrow> string \<Rightarrow> string list" where
  "split_on c [] = [[]]"
| "split_on c (x # xs) =
     (if x = c then [] # split_on c xs
      else (case split_on c xs of [] \<Rightarrow> [[x]] | w # ws \<Rightarrow> (x # w) # ws))"

section \<open>Lemmas on the built-ins\<close>

lemma js_find_index_from_neg:
  "0 \<le> k \<Longrightarrow> (0 \<le> js_find_index_from p k xs) \<longleftrightarrow> (\<exists>x\<in>set xs. p x)"
  by (induction xs arbitrary: k) auto

text \<open>The test \<open>findIndex(...) >= 0\<close> of the source is membership.\<close>

lemma js_find_index_nonneg [simp]:
  "(0 \<le> js_find_index p xs) \<longleftrightarrow> (\<exists>x\<in>set xs. p x)"
  by (simp add: js_find_index_def js_find_index_from_neg)

lemma js_find_index_from_found:
  "x \<in> set xs \<Longrightarrow> p x \<Longrightarrow>
   js_find_index_from p k xs = k + int (length (takeWhile (Not \<circ> p) xs))"
  by (induction xs arbitrary: k) auto

lemma digits_cases:
  "d < 10 \<Longrightarrow> d = 0 \<or> d = 1 \<or> d = 2 \<or> d = 3 \<or> d = 4 \<or> d = 5 \<or> d = 6 \<or> d = 7 \<or> d = 8 \<or> d = (9::nat)"
  by arith

lemma digit_val_digit_char [simp]: "d < 10 \<Longrightarrow> digit_val (digit_char d) = Some d"
  using digits_cases [of d] by (auto simp: digit_val_def digit_char_def)

lemma digit_char_in_digits: "d < 10 \<Longrightarrow> digit_char d \<in> set ''0123456789''"
  unfolding digit_char_def by (rule nth_mem) simp

lemma set_dec_nat: "set (dec_nat n) \<subseteq> set ''0123456789''"
proof (induction n rule: dec_nat.induct)
  case (1 n)
  show ?case
  proof (cases "n < 10")
    case True
    then show ?thesis
      using digit_char_in_digits [of n] by (subst dec_nat.simps) simp
  next
    case False
    then show ?thesis
      using "1.IH" digit_char_in_digits [of "n mod 10"] by (subst dec_nat.simps) simp
  qed
qed

lemma dec_nat_nonempty [simp]: "dec_nat n \<noteq> []"
  by (subst dec_nat.simps) simp

lemma parse_nat_acc_append:
  "parse_nat_acc acc (xs @ ys) = (case parse_nat_acc acc xs of None \<Rightarrow> None | Some a \<Rightarrow> parse_nat_acc a ys)"
  by (induction xs arbitrary: acc) (auto split: option.splits)

lemma parse_nat_acc_dec_nat:
  "parse_nat_acc acc (dec_nat n) = Some (acc * 10 ^ length (dec_nat n) + n)"
proof (induction n arbitrary: acc rule: dec_nat.induct)
  case (1 n)
  show ?case
  proof (cases "n < 10")
    case True
    then have "dec_nat n = [digit_char n]" by (subst dec_nat.simps) simp
    with True show ?thesis by simp
  next
    case False
    have d: "dec_nat n = dec_nat (n div 10) @ [digit_char (n mod 10)]"
      using False by (subst dec_nat.simps) simp
    have "n = 10 * (n div 10) + n mod 10" by simp
    then show ?thesis
      using False "1.IH"
      by (simp add: d parse_nat_acc_append algebra_simps)
  qed
qed

lemma parse_nat_acc_dec_nat_0 [simp]: "parse_nat_acc 0 (dec_nat n) = Some n"
  by (simp add: parse_nat_acc_dec_nat)

lemma dec_nat_hd_not_minus: "hd (dec_nat n) \<noteq> CHR ''-''"
proof -
  have "hd (dec_nat n) \<in> set ''0123456789''"
    using set_dec_nat [of n] hd_in_set [OF dec_nat_nonempty] by blast
  moreover have "CHR ''-'' \<notin> set ''0123456789''" by simp
  ultimately show ?thesis by metis
qed

lemma parse_int_js_int_to_string [simp]: "parse_int (js_int_to_string i) = Some i"
proof -
  obtain c r where cr: "dec_nat (nat \<bar>i\<bar>) = c # r"
    by (cases "dec_nat (nat \<bar>i\<bar>)") auto
  have "c \<noteq> CHR ''-''"
    using dec_nat_hd_not_minus [of "nat \<bar>i\<bar>"] cr by simp
  then show ?thesis
    using cr parse_nat_acc_dec_nat_0 [of "nat \<bar>i\<bar>"]
    by (auto simp: js_int_to_string_def parse_int_def)
qed

lemma js_int_to_string_inj: "js_int_to_string i = js_int_to_string j \<Longrightarrow> i = j"
  by (metis option.inject parse_int_js_int_to_string)

lemma set_Cons_mono: "set w \<subseteq> set ys \<Longrightarrow> set (a # w) \<subseteq> set (a # ys)"
  by auto

lemma set_js_int_to_string: "set (js_int_to_string i) \<subseteq> set ''-0123456789''"
proof (cases "i < 0")
  case True
  then have "js_int_to_string i = CHR ''-'' # dec_nat (nat (- i))"
    by (simp add: js_int_to_string_def)
  then show ?thesis using set_Cons_mono [OF set_dec_nat] by (simp only:)
next
  case False
  then have "js_int_to_string i = dec_nat (nat i)"
    by (simp add: js_int_to_string_def)
  then show ?thesis using set_dec_nat set_subset_Cons by (metis order_trans)
qed

lemma comma_notin_js_int_to_string [simp]: "CHR '','' \<notin> set (js_int_to_string i)"
proof
  assume "CHR '','' \<in> set (js_int_to_string i)"
  then have "CHR '','' \<in> set ''-0123456789''" using set_js_int_to_string by blast
  then show False by simp
qed

lemma split_on_no_sep: "c \<notin> set w \<Longrightarrow> split_on c w = [w]"
  by (induction w) auto

lemma split_on_sep_append:
  "c \<notin> set w \<Longrightarrow> split_on c (w @ c # rest) = w # split_on c rest"
  by (induction w) auto

lemma split_on_js_join:
  "ws \<noteq> [] \<Longrightarrow> \<forall>w\<in>set ws. c \<notin> set w \<Longrightarrow> split_on c (js_join [c] ws) = ws"
proof (induction ws)
  case Nil
  then show ?case by simp
next
  case (Cons x xs)
  show ?case
  proof (cases xs)
    case Nil
    with Cons.prems show ?thesis by (simp add: split_on_no_sep)
  next
    case (Cons y ys)
    from Cons.prems have c: "c \<notin> set x" by simp
    have "split_on c (js_join [c] xs) = xs"
      using Cons.IH Cons.prems \<open>xs = y # ys\<close> by simp
    then show ?thesis
      using \<open>xs = y # ys\<close> split_on_sep_append [OF c, of "js_join [c] (y # ys)"] by simp
  qed
qed

lemma js_join_map_Cons:
  "js_join sep (map f (x # xs)) = f x @ (if xs = [] then [] else sep @ js_join sep (map f xs))"
  by (cases xs) auto

end
