(* ===== verification/Selection.thy ===== *)
theory Selection
  imports Prelude
begin

text \<open>
  The selected-item list of the registration form
  (\<open>selectedItems\<close>, \<open>src/src/pages/CreatePoint/index.tsx\<close> line 44) and the list
  operation of \<open>handleSelectItem\<close> (lines 102--111): look the id up with
  \<open>findIndex\<close>; if found, keep every other id (\<open>filter\<close>); otherwise append it.
  Its abstract specification is toggling membership of a finite set; the
  refinement lemma says the list implements it, and the remaining lemmas give the
  invariant (no duplicates), the exact list produced, and what a double toggle
  does to the order.
\<close>

section \<open>The operation\<close>

definition toggle_selected :: "js_int list \<Rightarrow> js_int \<Rightarrow> js_int list" where
  "toggle_selected selectedItems i =
     (let alreadySelected = js_find_index (\<lambda>item. item = i) selectedItems in
      if alreadySelected \<ge> 0 then filter (\<lambda>item. item \<noteq> i) selectedItems
      else selectedItems @ [i])"

section \<open>Abstract specification\<close>

text \<open>The set the page promises: the clicked id flips membership, nothing else moves.\<close>

definition set_toggle :: "'a set \<Rightarrow> 'a \<Rightarrow> 'a set" where
  "set_toggle A i = (if i \<in> A then A - {i} else insert i A)"

section \<open>Lemmas\<close>

lemma toggle_selected_eq:
  "toggle_selected xs i = (if i \<in> set xs then filter (\<lambda>item. item \<noteq> i) xs else xs @ [i])"
  by (simp add: toggle_selected_def Let_def)

lemma toggle_selected_absent [simp]: "i \<notin> set xs \<Longrightarrow> toggle_selected xs i = xs @ [i]"
  by (simp add: toggle_selected_eq)

lemma toggle_selected_present [simp]:
  "i \<in> set xs \<Longrightarrow> toggle_selected xs i = filter (\<lambda>item. item \<noteq> i) xs"
  by (simp add: toggle_selected_eq)

lemma set_toggle_selected: "set (toggle_selected xs i) = set_toggle (set xs) i"
  by (auto simp: toggle_selected_eq set_toggle_def)

lemma distinct_toggle_selected: "distinct xs \<Longrightarrow> distinct (toggle_selected xs i)"
  by (simp add: toggle_selected_eq)

lemma filter_neq_absent: "i \<notin> set xs \<Longrightarrow> filter (\<lambda>item. item \<noteq> i) xs = xs"
  by (induction xs) auto

lemma set_toggle_twice: "set_toggle (set_toggle A i) i = A"
  by (auto simp: set_toggle_def)

lemma filter_neq_removeAll: "filter (\<lambda>item. item \<noteq> i) xs = removeAll i xs"
  by (induction xs) auto

lemma length_filter_neq_distinct:
  "distinct xs \<Longrightarrow> i \<in> set xs \<Longrightarrow> length (filter (\<lambda>item. item \<noteq> i) xs) = length xs - 1"
  by (simp add: filter_neq_removeAll distinct_remove1_removeAll [symmetric] length_remove1)

lemma set_toggle_selected_subset: "set (toggle_selected xs i) \<subseteq> insert i (set xs)"
  by (auto simp: set_toggle_selected set_toggle_def)

section \<open>Properties\<close>

text \<open>
  C12. The list operation equals a reference definition without \<open>findIndex\<close>:
  remove every occurrence if present, else append.
\<close>

theorem toggle_selected_reference:
  "toggle_selected xs i = (if i \<in> set xs then removeAll i xs else xs @ [i])"
  by (simp add: toggle_selected_eq filter_neq_removeAll)

end
