(* ===== verification/Form.thy ===== *)
theory Form
  imports Prelude
begin

text \<open>
  The contact fields of the registration form and the multipart payload they go
  into (\<open>src/src/pages/CreatePoint/index.tsx\<close>). \<open>formData\<close> is a JavaScript
  object, initially \<open>{name: '', email: '', whatsapp: ''}\<close> (lines 45--49), and
  \<open>handleInputChange\<close> (lines 113--116) stores the input's value under the input's
  \<open>name\<close> attribute with a computed key, so it is a map from keys to strings.
  Reading a key the object lacks gives \<open>undefined\<close>, which \<open>FormData.append\<close>
  turns into the string \<open>"undefined"\<close>; the invariant \<open>form_data_wf\<close> says this
  never happens for the three keys the submission reads.

  A payload entry of \<open>FormData\<close> is a text value, a number appended through
  \<open>String(n)\<close> (kept as the number: the decimal formatting of a double is not
  modelled), or a file (lines 127--140).
\<close>

section \<open>Data\<close>

type_synonym form_data = "string \<rightharpoonup> string"

record js_file =
  file_name :: string
  file_type :: string
  file_bytes :: "byte list"

datatype 'c form_value = FormText string | FormNumber 'c | FormFile js_file

type_synonym 'c form_entries = "(string \<times> 'c form_value) list"

definition form_fields :: "string list" where
  "form_fields = [''name'', ''email'', ''whatsapp'']"

section \<open>Operations\<close>

definition initial_form_data :: form_data where
  "initial_form_data = [''name'' \<mapsto> '''', ''email'' \<mapsto> '''', ''whatsapp'' \<mapsto> '''']"

definition input_change :: "form_data \<Rightarrow> string \<Rightarrow> string \<Rightarrow> form_data" where
  "input_change fd name value = fd(name \<mapsto> value)"

text \<open>Destructuring \<open>const {name} = formData\<close> and appending the value as a string.\<close>

definition js_field :: "form_data \<Rightarrow> string \<Rightarrow> string" where
  "js_field fd k = (case fd k of None \<Rightarrow> ''undefined'' | Some v \<Rightarrow> v)"

definition form_data_wf :: "form_data \<Rightarrow> bool" where
  "form_data_wf fd \<longleftrightarrow> set form_fields \<subseteq> dom fd"

text \<open>\<open>FormData.get\<close>: the first entry under a key.\<close>

fun form_get :: "'c form_entries \<Rightarrow> string \<Rightarrow> 'c form_value option" where
  "form_get [] k = None"
| "form_get ((k', v) # es) k = (if k' = k then Some v else form_get es k)"

text \<open>
  The constraint the browser checks before it submits the form: the email input
  has \<open>type="email"\<close> (line 178), so a non-empty value that is not a valid e-mail
  address (HTML Standard, 4.10.5.1.5) blocks submission and \<open>onSubmit\<close> never
  runs. A valid address is a non-empty local part of ASCII letters, digits and
  the characters of \<open>email_local_specials\<close>, an \<open>@\<close>, and a domain of labels
  separated by dots, each 1 to 63 letters, digits or hyphens, not beginning or
  ending with a hyphen. The input is uncontrolled; its value is the last value
  reported to \<open>handleInputChange\<close>, which is the value stored in \<open>formData\<close>.
\<close>

definition ascii_alnum :: "char \<Rightarrow> bool" where
  "ascii_alnum c =
     (let n = of_char c :: nat in (48 \<le> n \<and> n \<le> 57) \<or> (65 \<le> n \<and> n \<le> 90) \<or> (97 \<le> n \<and> n \<le> 122))"

definition email_local_specials :: string where
  "email_local_specials = ''.!#$%&*+/=?^_{|}~-'' @ [CHR 0x27, CHR 0x60]"

definition email_label_ok :: "string \<Rightarrow> bool" where
  "email_label_ok l \<longleftrightarrow>
     l \<noteq> [] \<and> length l \<le> 63 \<and> list_all (\<lambda>c. ascii_alnum c \<or> c = CHR ''-'') l \<and>
     ascii_alnum (hd l) \<and> ascii_alnum (last l)"

definition valid_email :: "string \<Rightarrow> bool" where
  "valid_email v =
     (case split_on CHR ''@'' v of
        [local, domain] \<Rightarrow>
          local \<noteq> [] \<and> list_all (\<lambda>c. ascii_alnum c \<or> c \<in> set email_local_specials) local \<and>
          list_all email_label_ok (split_on CHR ''.'' domain)
      | _ \<Rightarrow> False)"

definition email_constraint_ok :: "string \<Rightarrow> bool" where
  "email_constraint_ok v \<longleftrightarrow> v = [] \<or> valid_email v"

section \<open>Lemmas\<close>

lemma form_data_wf_initial [simp]: "form_data_wf initial_form_data"
  by (simp add: form_data_wf_def form_fields_def initial_form_data_def)

lemma form_data_wf_input_change [simp]:
  "form_data_wf fd \<Longrightarrow> form_data_wf (input_change fd name value)"
  by (auto simp: form_data_wf_def input_change_def)

lemma js_field_input_change [simp]:
  "js_field (input_change fd name value) k = (if k = name then value else js_field fd k)"
  by (simp add: js_field_def input_change_def)

lemma js_field_defined: "form_data_wf fd \<Longrightarrow> k \<in> set form_fields \<Longrightarrow> fd k = Some (js_field fd k)"
  by (auto simp: form_data_wf_def js_field_def)

lemma form_get_append:
  "form_get (es @ fs) k = (case form_get es k of None \<Rightarrow> form_get fs k | Some v \<Rightarrow> Some v)"
  by (induction es) auto

lemma email_constraint_ok_initial [simp]: "email_constraint_ok (js_field initial_form_data ''email'')"
  by (simp add: email_constraint_ok_def js_field_def initial_form_data_def)

end
