(* ===== verification/Page.thy ===== *)
theory Page
  imports Selection Form
begin

text \<open>
  The registration screen \<open>CreatePoint\<close> of \<open>src/src/pages/CreatePoint/index.tsx\<close>.
  Its \<open>useState\<close> hooks (lines 33--51) are the fields of the record
  \<open>create_point_state\<close>. The coordinates are of a type \<open>'c\<close>: the page only stores
  and forwards them, and the model does not fix how JavaScript formats a double.

  Each handler becomes a function from the state (as of the last render) to the
  new state and the list of requests the step starts. A handler call, the
  re-render it causes and the passive effects that run after that render are one
  step: the effect on \<open>[selectedUf]\<close> (lines 75--83) runs when the new
  \<open>selectedUf\<close> differs from the old one, and starts the city request unless the
  value is the placeholder \<open>'0'\<close>. Requests go out and their callbacks run later,
  in any order; that part is modelled in theory \<open>App\<close>. The callback of each
  request is \<open>apply_response\<close>.

  The view (lines 149--254) is modelled as far as it constrains events: the
  option lists of the two selects, which option a controlled select shows, and
  the class of each item tile.
\<close>

section \<open>Data\<close>

text \<open>\<open>interface Item\<close>, \<open>IBGEUfResponse\<close>, \<open>IBGECityResponse\<close> (lines 17--29).\<close>

record item =
  item_id :: js_int
  title :: string
  image_url :: string

record ibge_uf_response =
  sigla :: string

record ibge_city_response =
  nome :: string

record 'c create_point_state =
  items :: "item list"
  ufs :: "string list"
  cities :: "string list"
  selectedUf :: string
  selectedCity :: string
  initialPosition :: "'c \<times> 'c"
  selectedPosition :: "'c \<times> 'c"
  selectedItems :: "js_int list"
  formData :: form_data
  selectedFile :: "js_file option"

type_synonym 'c cps = "'c create_point_state"

text \<open>Requests the page starts, with the callback each completion runs.\<close>

datatype 'c request =
    GeolocationRequest
  | ItemsRequest
  | UfsRequest
  | CitiesRequest string
  | PointsPost "'c form_entries"

datatype 'c response =
    GeoPosition 'c 'c
  | ItemsData "item list"
  | UfsData "ibge_uf_response list"
  | CitiesData "ibge_city_response list"
  | Posted
  | Rejected

definition ibge_ufs_url :: string where
  "ibge_ufs_url = ''https://servicodados.ibge.gov.br/api/v1/localidades/estados''"

definition ibge_cities_url :: "string \<Rightarrow> string" where
  "ibge_cities_url uf = ibge_ufs_url @ ''/'' @ uf @ ''/municipios''"

fun request_url :: "'c request \<Rightarrow> string option" where
  "request_url GeolocationRequest = None"
| "request_url ItemsRequest = Some ''items''"
| "request_url UfsRequest = Some ibge_ufs_url"
| "request_url (CitiesRequest uf) = Some (ibge_cities_url uf)"
| "request_url (PointsPost data) = Some ''points''"

section \<open>Mount\<close>

definition create_point_init :: "'c::zero cps" where
  "create_point_init =
     \<lparr>items = [], ufs = [], cities = [], selectedUf = ''0'', selectedCity = ''0'',
      initialPosition = (0, 0), selectedPosition = (0, 0), selectedItems = [],
      formData = initial_form_data, selectedFile = None\<rparr>"

text \<open>The effect on \<open>[selectedUf]\<close>: nothing for the placeholder, else the city request.\<close>

definition uf_effect :: "string \<Rightarrow> 'c request list" where
  "uf_effect uf = (if uf = ''0'' then [] else [CitiesRequest uf])"

text \<open>The four effects in declaration order, run after the first render.\<close>

definition mount_requests :: "'c request list" where
  "mount_requests = [GeolocationRequest, ItemsRequest, UfsRequest] @ uf_effect ''0''"

section \<open>Callbacks of the requests\<close>

fun apply_response :: "'c request \<Rightarrow> 'c response \<Rightarrow> 'c cps \<Rightarrow> 'c cps" where
  "apply_response GeolocationRequest (GeoPosition latitude longitude) st =
     st\<lparr>initialPosition := (latitude, longitude)\<rparr>"
| "apply_response ItemsRequest (ItemsData xs) st = st\<lparr>items := xs\<rparr>"
| "apply_response UfsRequest (UfsData us) st = st\<lparr>ufs := map sigla us\<rparr>"
| "apply_response (CitiesRequest uf) (CitiesData cs) st = st\<lparr>cities := map nome cs\<rparr>"
| "apply_response _ _ st = st"

section \<open>Handlers\<close>

definition handleSelectUf :: "'c cps \<Rightarrow> string \<Rightarrow> 'c cps \<times> 'c request list" where
  "handleSelectUf st uf =
     (st\<lparr>selectedUf := uf\<rparr>, if uf = selectedUf st then [] else uf_effect uf)"

definition handleSelectCity :: "'c cps \<Rightarrow> string \<Rightarrow> 'c cps" where
  "handleSelectCity st city = st\<lparr>selectedCity := city\<rparr>"

definition handleMapClick :: "'c cps \<Rightarrow> 'c \<Rightarrow> 'c \<Rightarrow> 'c cps" where
  "handleMapClick st lat lng = st\<lparr>selectedPosition := (lat, lng)\<rparr>"

definition handleSelectItem :: "'c cps \<Rightarrow> js_int \<Rightarrow> 'c cps" where
  "handleSelectItem st i = st\<lparr>selectedItems := toggle_selected (selectedItems st) i\<rparr>"

definition handleInputChange :: "'c cps \<Rightarrow> string \<Rightarrow> string \<Rightarrow> 'c cps" where
  "handleInputChange st name value = st\<lparr>formData := input_change (formData st) name value\<rparr>"

definition setSelectedFile :: "'c cps \<Rightarrow> js_file \<Rightarrow> 'c cps" where
  "setSelectedFile st f = st\<lparr>selectedFile := Some f\<rparr>"

text \<open>The synchronous part of \<open>handleSubmit\<close>: the payload, in append order.\<close>

definition submit_form_data :: "'c cps \<Rightarrow> 'c form_entries" where
  "submit_form_data st =
     (let fd = formData st; (latitude, longitude) = selectedPosition st
      in [(''name'', FormText (js_field fd ''name'')),
          (''email'', FormText (js_field fd ''email'')),
          (''whatsapp'', FormText (js_field fd ''whatsapp'')),
          (''uf'', FormText (selectedUf st)),
          (''city'', FormText (selectedCity st)),
          (''latitude'', FormNumber latitude),
          (''longitude'', FormNumber longitude),
          (''items'', FormText (js_join '','' (map js_int_to_string (selectedItems st))))]
         @ (case selectedFile st of None \<Rightarrow> [] | Some f \<Rightarrow> [(''image'', FormFile f)]))"

definition handleSubmit :: "'c cps \<Rightarrow> 'c request list" where
  "handleSubmit st = [PointsPost (submit_form_data st)]"

section \<open>View\<close>

text \<open>Option lists as (value, label) pairs, in the order they are rendered.\<close>

definition uf_options :: "'c cps \<Rightarrow> (string \<times> string) list" where
  "uf_options st = (''0'', ''Selecione uma UF'') # map (\<lambda>uf. (uf, uf)) (ufs st)"

definition city_options :: "'c cps \<Rightarrow> (string \<times> string) list" where
  "city_options st = map (\<lambda>city. (city, city)) (cities st)"

text \<open>
  The option a controlled \<open><select value=...>\<close> shows: the one whose value
  matches, and when none does, the first one (React selects the first
  non-disabled option).
\<close>

definition shown_option :: "string \<Rightarrow> (string \<times> string) list \<Rightarrow> string option" where
  "shown_option v opts =
     (if v \<in> set (map fst opts) then Some v
      else (case opts of [] \<Rightarrow> None | opt # _ \<Rightarrow> Some (fst opt)))"

definition item_class :: "'c cps \<Rightarrow> item \<Rightarrow> string" where
  "item_class st it = (if item_id it \<in> set (selectedItems st) then ''selected'' else '''')"

section \<open>Events of the page\<close>

datatype 'c page_event =
    SelectUf string
  | SelectCity string
  | MapClick 'c 'c
  | SelectItem js_int
  | InputChange string string
  | FileUploaded js_file
  | SubmitForm

text \<open>
  Which events the rendered page can produce: a select fires \<open>change\<close> only for
  one of its options other than the shown one; a click reaches
  \<open>handleSelectItem\<close> only through a rendered tile; the inputs are the three
  named ones; the form submits only while the email value passes the
  \<open>type="email"\<close> constraint (\<open>Form.email_constraint_ok\<close>).
\<close>

fun page_event_enabled :: "'c cps \<Rightarrow> 'c page_event \<Rightarrow> bool" where
  "page_event_enabled st (SelectUf uf) =
     (uf \<in> set (map fst (uf_options st)) \<and> shown_option (selectedUf st) (uf_options st) \<noteq> Some uf)"
| "page_event_enabled st (SelectCity city) =
     (city \<in> set (map fst (city_options st)) \<and> shown_option (selectedCity st) (city_options st) \<noteq> Some city)"
| "page_event_enabled st (SelectItem i) = (i \<in> set (map item_id (items st)))"
| "page_event_enabled st (InputChange name value) = (name \<in> set form_fields)"
| "page_event_enabled st SubmitForm = email_constraint_ok (js_field (formData st) ''email'')"
| "page_event_enabled st _ = True"

fun page_step :: "'c cps \<Rightarrow> 'c page_event \<Rightarrow> 'c cps \<times> 'c request list" where
  "page_step st (SelectUf uf) = handleSelectUf st uf"
| "page_step st (SelectCity city) = (handleSelectCity st city, [])"
| "page_step st (MapClick lat lng) = (handleMapClick st lat lng, [])"
| "page_step st (SelectItem i) = (handleSelectItem st i, [])"
| "page_step st (InputChange name value) = (handleInputChange st name value, [])"
| "page_step st (FileUploaded f) = (setSelectedFile st f, [])"
| "page_step st SubmitForm = (st, handleSubmit st)"

section \<open>Invariant\<close>

definition page_wf :: "'c cps \<Rightarrow> bool" where
  "page_wf st \<longleftrightarrow> distinct (selectedItems st) \<and> form_data_wf (formData st)"

lemmas page_defs [page_simps] =
  handleSelectUf_def handleSelectCity_def handleMapClick_def handleSelectItem_def
  handleInputChange_def setSelectedFile_def handleSubmit_def

lemmas page_view_defs [page_simps] =
  create_point_init_def uf_effect_def uf_options_def city_options_def shown_option_def

section \<open>Lemmas\<close>

lemma email_constraint_ok_init [simp]: "email_constraint_ok (js_field (formData create_point_init) ''email'')"
  by (simp add: create_point_init_def)

lemma page_wf_init [simp]: "page_wf create_point_init"
  by (simp add: page_wf_def create_point_init_def)

lemma page_wf_apply_response [simp]: "page_wf (apply_response q r st) = page_wf st"
  by (induction q r st rule: apply_response.induct) (simp_all add: page_wf_def)

lemma page_wf_page_step: "page_wf st \<Longrightarrow> page_wf (fst (page_step st e))"
  by (cases e) (simp_all add: page_simps page_wf_def distinct_toggle_selected)

lemma uf_effect_placeholder [simp]: "uf_effect ''0'' = []"
  by (simp add: uf_effect_def)

lemma mount_requests_eq [code]: "mount_requests = [GeolocationRequest, ItemsRequest, UfsRequest]"
  by (simp add: mount_requests_def)

lemma set_uf_effect: "set (uf_effect uf) \<subseteq> {CitiesRequest uf}"
  by (simp add: uf_effect_def)

lemma shown_option_member: "v \<in> set (map fst opts) \<Longrightarrow> shown_option v opts = Some v"
  by (simp add: shown_option_def)

lemma enabled_select_uf_changes:
  "page_event_enabled st (SelectUf uf) \<Longrightarrow> uf \<noteq> selectedUf st"
  using shown_option_member [of uf "uf_options st"] by auto

lemma enabled_select_city_changes:
  "page_event_enabled st (SelectCity city) \<Longrightarrow> city \<noteq> selectedCity st"
  using shown_option_member [of city "city_options st"] by auto

lemma page_step_requests:
  "set (snd (page_step st e)) \<subseteq>
     {CitiesRequest uf | uf. uf \<noteq> ''0''} \<union> {PointsPost (submit_form_data st)}"
  by (cases e) (auto simp: page_simps uf_effect_def)

lemma form_get_submit_items:
  "form_get (submit_form_data st) ''items'' =
     Some (FormText (js_join '','' (map js_int_to_string (selectedItems st))))"
  by (simp add: submit_form_data_def Let_def prod.case_eq_if)

lemma form_get_submit_field:
  "k \<in> set form_fields \<Longrightarrow> form_get (submit_form_data st) k = Some (FormText (js_field (formData st) k))"
  by (auto simp: form_fields_def submit_form_data_def Let_def prod.case_eq_if)

lemma page_step_items [simp]: "items (fst (page_step st e)) = items st"
  by (cases e) (simp_all add: page_simps)

lemma page_step_ufs [simp]: "ufs (fst (page_step st e)) = ufs st"
  by (cases e) (simp_all add: page_simps)

lemma page_step_no_load_request:
  "count_list (snd (page_step st e)) ItemsRequest = 0 \<and> count_list (snd (page_step st e)) UfsRequest = 0"
  by (cases e) (simp_all add: page_simps uf_effect_def)

lemma page_step_selected_subset:
  "page_event_enabled st e \<Longrightarrow> set (selectedItems st) \<subseteq> set (map item_id (items st)) \<Longrightarrow>
   set (selectedItems (fst (page_step st e))) \<subseteq> set (map item_id (items st))"
  using set_toggle_selected_subset by (cases e) (fastforce simp: page_simps)+

lemma page_step_selected_empty:
  "page_event_enabled st e \<Longrightarrow> items st = [] \<Longrightarrow> selectedItems st = [] \<Longrightarrow>
   selectedItems (fst (page_step st e)) = []"
  by (cases e) (simp_all add: page_simps)

lemma page_step_selected_uf:
  "page_event_enabled st e \<Longrightarrow> selectedUf st \<in> set (''0'' # ufs st) \<Longrightarrow>
   selectedUf (fst (page_step st e)) \<in> set (''0'' # ufs st)"
  by (cases e) (auto simp: page_simps)

lemma page_step_selected_uf_placeholder:
  "page_event_enabled st e \<Longrightarrow> ufs st = [] \<Longrightarrow> selectedUf st = ''0'' \<Longrightarrow>
   selectedUf (fst (page_step st e)) = ''0''"
  by (cases e) (simp_all add: page_simps)

lemma apply_response_selected [simp]:
  "selectedItems (apply_response q r st) = selectedItems st"
  "selectedUf (apply_response q r st) = selectedUf st"
  by (induction q r st rule: apply_response.induct) simp_all

lemma apply_response_items:
  "items (apply_response q r st) = (case (q, r) of (ItemsRequest, ItemsData xs) \<Rightarrow> xs | _ \<Rightarrow> items st)"
  by (induction q r st rule: apply_response.induct) (simp_all split: request.splits)

lemma apply_response_ufs:
  "ufs (apply_response q r st) = (case (q, r) of (UfsRequest, UfsData us) \<Rightarrow> map sigla us | _ \<Rightarrow> ufs st)"
  by (induction q r st rule: apply_response.induct) (simp_all split: request.splits)

section \<open>Properties of the page\<close>

text \<open>
  C2. Clicking an item tile implements the abstract toggle: the set of selected ids
  afterwards is the old set with the clicked id's membership flipped.
\<close>

theorem handleSelectItem_refines:
  "set (selectedItems (handleSelectItem st i)) = set_toggle (set (selectedItems st)) i"
  by (simp add: handleSelectItem_def set_toggle_selected)

text \<open>
  C9. The \<open>items\<close> field of the payload decodes back to the selection: splitting
  it at commas and reading each piece as an integer gives the selected ids in
  order, whenever at least one is selected.
\<close>

theorem submit_items_roundtrip:
  assumes "selectedItems st \<noteq> []" and "form_get (submit_form_data st) ''items'' = Some (FormText t)"
  shows "map parse_int (split_on CHR '','' t) = map Some (selectedItems st)"
proof -
  have t: "t = js_join [CHR '',''] (map js_int_to_string (selectedItems st))"
    using assms(2) by (simp add: form_get_submit_items)
  have "split_on CHR '','' t = map js_int_to_string (selectedItems st)"
    unfolding t using assms(1) by (intro split_on_js_join) auto
  then show ?thesis by simp
qed

text \<open>
  With C2 and \<open>set_toggle_twice\<close>: clicking the same tile twice gives back the
  same set of selected ids (the double-toggle property of spec section 8).
\<close>

theorem handleSelectItem_twice:
  "set (selectedItems (handleSelectItem (handleSelectItem st i) i)) = set (selectedItems st)"
  by (simp add: handleSelectItem_def set_toggle_selected set_toggle_twice)

text \<open>
  C11. The list is not given back: clicking a selected id twice removes it and
  appends it again, so it moves to the end. For a selection without duplicates
  the list is restored exactly when the id was already the last one, so the
  order of the \<open>items\<close> field depends on the click history.
\<close>

theorem handleSelectItem_twice_reorders:
  assumes "i \<in> set (selectedItems st)"
  shows "selectedItems (handleSelectItem (handleSelectItem st i) i) = removeAll i (selectedItems st) @ [i] \<and>
         (distinct (selectedItems st) \<longrightarrow>
            (selectedItems (handleSelectItem (handleSelectItem st i) i) = selectedItems st \<longleftrightarrow>
             last (selectedItems st) = i))"
proof -
  let ?xs = "selectedItems st"
  have eq: "selectedItems (handleSelectItem (handleSelectItem st i) i) = removeAll i ?xs @ [i]"
    using assms by (simp add: handleSelectItem_def filter_neq_removeAll)
  have "removeAll i ?xs @ [i] = ?xs \<longleftrightarrow> last ?xs = i" if d: "distinct ?xs"
  proof
    assume "removeAll i ?xs @ [i] = ?xs"
    then show "last ?xs = i" by (metis last_snoc)
  next
    assume l: "last ?xs = i"
    have ne: "?xs \<noteq> []" using assms by auto
    then have x: "?xs = butlast ?xs @ [i]" using l by (metis append_butlast_last_id)
    with d have "i \<notin> set (butlast ?xs)" by (metis distinct_append not_distinct_conv_prefix)
    then show "removeAll i ?xs @ [i] = ?xs" using x by (metis removeAll_append removeAll_id
      removeAll.simps append_Nil2 list.distinct(1) removeAll.simps(2))
  qed
  with eq show ?thesis by simp
qed

text \<open>
  C13. The payload has the fields name, email, whatsapp, uf, city, latitude,
  longitude and items, in this order, followed by the image exactly when a file
  was dropped.
\<close>

theorem submit_keys:
  "map fst (submit_form_data st) =
     [''name'', ''email'', ''whatsapp'', ''uf'', ''city'', ''latitude'', ''longitude'', ''items''] @
     (case selectedFile st of None \<Rightarrow> [] | Some f \<Rightarrow> [''image''])"
  by (simp add: submit_form_data_def Let_def prod.case_eq_if split: option.splits)

text \<open>
  C14. With nothing selected the \<open>items\<close> field is the empty string, which the
  comma split reads as one empty piece that is not a number.
\<close>

theorem submit_empty_items:
  assumes "selectedItems st = []"
  shows "\<exists>t. form_get (submit_form_data st) ''items'' = Some (FormText t) \<and>
             split_on CHR '','' t = [[]] \<and> parse_int [] = None"
  using assms by (simp add: form_get_submit_items parse_int_def)

text \<open>
  C16. After typing \<open>v\<close> into one of the three contact inputs, the payload
  carries \<open>v\<close> under that input's name.
\<close>

theorem input_change_submitted:
  assumes "n \<in> set form_fields"
  shows "form_get (submit_form_data (handleInputChange st n v)) n = Some (FormText v)"
  using assms by (simp add: form_get_submit_field handleInputChange_def)

section \<open>Witnesses\<close>

theorem handleSelectItem_twice_reorders_witness:
  "selectedItems (handleSelectItem (handleSelectItem ((create_point_init :: int cps)\<lparr>selectedItems := [2, 5]\<rparr>) 2) 2) =
   [5, 2]"
  using handleSelectItem_twice_reorders [of 2 "(create_point_init :: int cps)\<lparr>selectedItems := [2, 5]\<rparr>"]
  by simp

theorem submit_items_roundtrip_witness:
  "map parse_int (split_on CHR '','' ''2,5'') = map Some [2, 5]"
proof -
  let ?st = "(create_point_init :: int cps)\<lparr>selectedItems := [2, 5]\<rparr>"
  have h1: "selectedItems ?st \<noteq> []" by simp
  have h2: "form_get (submit_form_data ?st) ''items'' = Some (FormText ''2,5'')"
    by (simp add: form_get_submit_items js_int_to_string_def dec_nat.simps digit_char_def)
  show ?thesis using submit_items_roundtrip [OF h1 h2] by simp
qed

theorem submit_empty_items_witness:
  "\<exists>t. form_get (submit_form_data (create_point_init :: int cps)) ''items'' = Some (FormText t) \<and>
       split_on CHR '','' t = [[]] \<and> parse_int [] = None"
  using submit_empty_items [of "create_point_init :: int cps"] by (simp add: create_point_init_def)

theorem input_change_submitted_witness:
  "form_get (submit_form_data (handleInputChange (create_point_init :: int cps) ''name'' ''Ecoleta'')) ''name'' =
   Some (FormText ''Ecoleta'')"
  using input_change_submitted [of "''name''" "create_point_init :: int cps" "''Ecoleta''"]
  by (simp add: form_fields_def)

end
