(* ===== verification/App.thy ===== *)
theory App
  imports Page
begin

text \<open>
  The application around the registration screen: the two routes and the link
  each page renders (\<open>src/src/pages/Home/index.tsx\<close> lines 20--25 and
  \<open>CreatePoint/index.tsx\<close> lines 154--157), mounting and unmounting of
  \<open>CreatePoint\<close>, the requests in flight, and the continuation of
  \<open>handleSubmit\<close> after its \<open>await\<close> (lines 142--146).

  Every mount of \<open>CreatePoint\<close> is a new component instance, numbered by
  \<open>mounts\<close>; a request is recorded with the instance that started it, and its
  callback's \<open>setState\<close> changes the page only while that instance is still the
  mounted one (React ignores updates of an unmounted component). The
  continuation of the submission uses \<open>alert\<close> and \<open>history.push\<close>, which do
  not belong to the instance, so it runs whether or not the form is still shown.

  The environment is the event list: a user event, or the completion of any one
  of the pending requests, with any response. So every order of completion is a
  run, and the reachable states are those of all runs from \<open>app_init\<close>.
\<close>

section \<open>Routes\<close>

datatype route = HomeRoute | CreatePointRoute

fun route_path :: "route \<Rightarrow> string" where
  "route_path HomeRoute = ''/''"
| "route_path CreatePointRoute = ''/create-point''"

definition home_link_target :: route where
  "home_link_target = CreatePointRoute"

definition create_point_link_target :: route where
  "create_point_link_target = HomeRoute"

fun link_target :: "route \<Rightarrow> route" where
  "link_target HomeRoute = home_link_target"
| "link_target CreatePointRoute = create_point_link_target"

section \<open>State\<close>

record 'c app =
  route :: route
  page :: "'c cps option"
  mounts :: nat
  pending :: "(nat \<times> 'c request) list"
  alerts :: "string list"

definition app_init :: "'c app" where
  "app_init = \<lparr>route = HomeRoute, page = None, mounts = 0, pending = [], alerts = []\<rparr>"

definition submit_ack :: string where
  "submit_ack = ''Ponto de coleta criado.''"

section \<open>Operations\<close>

text \<open>
  \<open>history.push\<close> (and a link click): pushing the current route keeps the mounted
  page; entering \<open>/create-point\<close> mounts a fresh instance, whose effects start the
  mount requests; leaving it unmounts the page.
\<close>

definition navigate :: "route \<Rightarrow> 'c::zero app \<Rightarrow> 'c app" where
  "navigate r s =
     (if r = route s then s
      else if r = CreatePointRoute then
        s\<lparr>route := r, page := Some create_point_init, mounts := Suc (mounts s),
          pending := pending s @ map (\<lambda>q. (Suc (mounts s), q)) mount_requests\<rparr>
      else s\<lparr>route := r, page := None\<rparr>)"

definition remove_nth :: "nat \<Rightarrow> 'a list \<Rightarrow> 'a list" where
  "remove_nth k xs = take k xs @ drop (Suc k) xs"

text \<open>
  The completion of one request. For the submission: on success the
  acknowledgement and the redirect; a rejected \<open>await\<close> throws out of
  \<open>handleSubmit\<close>, so neither runs. For the other requests: the callback of the
  instance that started it.
\<close>

fun complete :: "nat \<Rightarrow> 'c request \<Rightarrow> 'c response \<Rightarrow> 'c::zero app \<Rightarrow> 'c app" where
  "complete inst (PointsPost data) r s =
     (case r of
        Posted \<Rightarrow> navigate HomeRoute (s\<lparr>alerts := alerts s @ [submit_ack]\<rparr>)
      | _ \<Rightarrow> s)"
| "complete inst q r s =
     (case page s of
        None \<Rightarrow> s
      | Some st \<Rightarrow> if inst = mounts s then s\<lparr>page := Some (apply_response q r st)\<rparr> else s)"

datatype 'c app_event = ClickLink | PageEvent "'c page_event" | Deliver nat "'c response"

fun app_step :: "'c::zero app \<Rightarrow> 'c app_event \<Rightarrow> 'c app" where
  "app_step s ClickLink = navigate (link_target (route s)) s"
| "app_step s (PageEvent e) =
     (case page s of
        None \<Rightarrow> s
      | Some st \<Rightarrow>
          if page_event_enabled st e then
            (let (st', qs) = page_step st e
             in s\<lparr>page := Some st', pending := pending s @ map (\<lambda>q. (mounts s, q)) qs\<rparr>)
          else s)"
| "app_step s (Deliver k r) =
     (if k < length (pending s) then
        (let (inst, q) = pending s ! k
         in complete inst q r (s\<lparr>pending := remove_nth k (pending s)\<rparr>))
      else s)"

fun app_run :: "'c::zero app \<Rightarrow> 'c app_event list \<Rightarrow> 'c app" where
  "app_run s [] = s"
| "app_run s (e # es) = app_run (app_step s e) es"

inductive reachable :: "'c::zero app \<Rightarrow> bool" where
  init: "reachable app_init"
| step: "reachable s \<Longrightarrow> reachable (app_step s e)"

section \<open>Invariant\<close>

text \<open>
  The page is mounted exactly on \<open>/create-point\<close>; every pending request belongs
  to an instance mounted so far; the mounted page is well formed.
\<close>

definition app_inv :: "'c app \<Rightarrow> bool" where
  "app_inv s \<longleftrightarrow>
     (page s \<noteq> None \<longleftrightarrow> route s = CreatePointRoute) \<and>
     list_all (\<lambda>(inst, q). inst \<le> mounts s) (pending s) \<and>
     pred_option page_wf (page s)"

text \<open>
  The item and state lists are loaded once per instance: while the instance's
  request for a list is pending, the list and the selection drawn from it are
  still empty, and afterwards every selected value is one of the listed ones.
\<close>

definition loaded_inv :: "'c app \<Rightarrow> bool" where
  "loaded_inv s \<longleftrightarrow>
     pred_option (\<lambda>st.
        set (selectedItems st) \<subseteq> set (map item_id (items st)) \<and>
        selectedUf st \<in> set (''0'' # ufs st) \<and>
        count_list (pending s) (mounts s, ItemsRequest) \<le> 1 \<and>
        count_list (pending s) (mounts s, UfsRequest) \<le> 1 \<and>
        (0 < count_list (pending s) (mounts s, ItemsRequest) \<longrightarrow> items st = [] \<and> selectedItems st = []) \<and>
        (0 < count_list (pending s) (mounts s, UfsRequest) \<longrightarrow> ufs st = [] \<and> selectedUf st = ''0''))
      (page s)"

section \<open>Sample runs\<close>

text \<open>Concrete states used by the witnesses, with integer coordinates.\<close>

definition sample_ufs :: "int response" where
  "sample_ufs = UfsData [\<lparr>sigla = ''SP''\<rparr>, \<lparr>sigla = ''RJ''\<rparr>]"

definition sample_loaded :: "int app" where
  "sample_loaded = app_run app_init [ClickLink, Deliver 2 sample_ufs]"

definition sample_sp :: "int app" where
  "sample_sp = app_step sample_loaded (PageEvent (SelectUf ''SP''))"

definition sample_submitted :: "int app" where
  "sample_submitted = app_step sample_loaded (PageEvent SubmitForm)"

section \<open>Lemmas\<close>

lemmas app_defs [app_simps] =
  app_init_def navigate_def remove_nth_def home_link_target_def create_point_link_target_def

lemma set_remove_nth: "set (remove_nth k xs) \<subseteq> set xs"
  by (auto simp: remove_nth_def dest: in_set_takeD in_set_dropD)

lemma remove_nth_append_last [simp]: "remove_nth (length xs) (xs @ [x]) = xs"
  by (simp add: remove_nth_def)

lemma app_inv_init [simp]: "app_inv app_init"
  by (simp add: app_inv_def app_init_def)

lemma app_inv_navigate: "app_inv s \<Longrightarrow> app_inv (navigate r s)"
  by (cases r) (auto simp: app_inv_def navigate_def list_all_iff mount_requests_def)

lemma app_inv_alerts [simp]: "app_inv (s\<lparr>alerts := a\<rparr>) = app_inv s"
  by (simp add: app_inv_def)

lemma app_inv_page_update:
  "app_inv s \<Longrightarrow> page s = Some st \<Longrightarrow> page_wf st' \<Longrightarrow>
   app_inv (s\<lparr>page := Some st', pending := pending s @ map (Pair (mounts s)) qs\<rparr>)"
  by (auto simp: app_inv_def list_all_iff)

lemma complete_callback:
  "(\<forall>data. q \<noteq> PointsPost data) \<Longrightarrow>
   complete inst q r s =
     (case page s of
        None \<Rightarrow> s
      | Some st \<Rightarrow> if inst = mounts s then s\<lparr>page := Some (apply_response q r st)\<rparr> else s)"
  by (induction inst q r s rule: complete.induct) simp_all

lemma pending_complete [simp]: "pending (complete i q r s) = pending s"
  by (induction i q r s rule: complete.induct) (simp_all add: navigate_def split: response.splits option.splits)

lemma mounts_complete [simp]: "mounts (complete i q r s) = mounts s"
  by (induction i q r s rule: complete.induct) (simp_all add: navigate_def split: response.splits option.splits)

lemma app_inv_complete: "app_inv s \<Longrightarrow> app_inv (complete inst q r s)"
proof (cases "\<exists>data. q = PointsPost data")
  case True
  assume "app_inv s"
  with True show ?thesis by (cases r) (auto simp: app_inv_navigate)
next
  case False
  assume inv: "app_inv s"
  show ?thesis
  proof (cases "page s")
    case None
    with False inv show ?thesis by (simp add: complete_callback)
  next
    case (Some st)
    with inv have "page_wf st" by (simp add: app_inv_def)
    then have "page_wf (apply_response q r st)" by simp
    with False inv Some app_inv_page_update [of s st "apply_response q r st" "[]"]
    show ?thesis by (simp add: complete_callback)
  qed
qed

lemma app_inv_drop_pending:
  "app_inv s \<Longrightarrow> app_inv (s\<lparr>pending := remove_nth k (pending s)\<rparr>)"
  using set_remove_nth [of k "pending s"] by (auto simp: app_inv_def list_all_iff)

lemma app_step_page_event:
  "page s = Some st \<Longrightarrow> page_event_enabled st e \<Longrightarrow> page_step st e = (st', qs) \<Longrightarrow>
   app_step s (PageEvent e) = s\<lparr>page := Some st', pending := pending s @ map (Pair (mounts s)) qs\<rparr>"
  by simp

lemma app_inv_page_event: "app_inv s \<Longrightarrow> app_inv (app_step s (PageEvent e))"
proof (cases "page s")
  case None
  assume "app_inv s"
  with None show ?thesis by simp
next
  case (Some st)
  assume inv: "app_inv s"
  obtain st' qs where ps: "page_step st e = (st', qs)" by fastforce
  from inv Some have "page_wf st" by (simp add: app_inv_def)
  then have "page_wf st'" using page_wf_page_step [of st e] ps by simp
  then show ?thesis
    using inv Some ps app_inv_page_update [OF inv Some] by (cases "page_event_enabled st e") simp_all
qed

lemma app_inv_step: "app_inv s \<Longrightarrow> app_inv (app_step s e)"
proof (cases e)
  case ClickLink
  assume "app_inv s"
  then show ?thesis using ClickLink by (simp add: app_inv_navigate)
next
  case (PageEvent pe)
  assume "app_inv s"
  then show ?thesis unfolding PageEvent by (rule app_inv_page_event)
next
  case (Deliver k r)
  assume inv: "app_inv s"
  show ?thesis
  proof (cases "k < length (pending s)")
    case True
    obtain inst q where "pending s ! k = (inst, q)" by fastforce
    then show ?thesis
      using Deliver True app_inv_complete [OF app_inv_drop_pending [OF inv]] by simp
  next
    case False
    then show ?thesis using Deliver inv by simp
  qed
qed

lemma reachable_app_inv_step: "reachable s \<Longrightarrow> app_inv s"
  by (induction rule: reachable.induct) (simp_all add: app_inv_step)

lemma reachable_app_run: "reachable s \<Longrightarrow> reachable (app_run s es)"
  by (induction es arbitrary: s) (auto intro: reachable.step)


lemma remove_nth_Cons:
  "remove_nth 0 (x # xs) = xs" "remove_nth (Suc k) (x # xs) = x # remove_nth k xs"
  by (simp_all add: remove_nth_def)

lemma length_remove_nth [simp]: "k < length xs \<Longrightarrow> length (remove_nth k xs) = length xs - 1"
  by (simp add: remove_nth_def)

lemma count_list_nth_pos: "k < length xs \<Longrightarrow> xs ! k = x \<Longrightarrow> 0 < count_list xs x"
  by (metis count_list_0_iff gr0I nth_mem)

lemma count_list_remove_nth:
  "k < length xs \<Longrightarrow> count_list (remove_nth k xs) x = count_list xs x - (if xs ! k = x then 1 else 0)"
proof (induction xs arbitrary: k)
  case Nil
  then show ?case by simp
next
  case (Cons y ys)
  then show ?case
    using count_list_nth_pos [of "k - 1" ys] by (cases k) (auto simp: remove_nth_Cons)
qed

lemma count_list_tags_below: "list_all (\<lambda>(i, q). i \<le> m) ps \<Longrightarrow> count_list ps (Suc m, q) = 0"
  by (induction ps) auto

lemma count_list_tagged_requests:
  "count_list (map (Pair j) qs) (i, q) = (if i = j then count_list qs q else 0)"
  by (induction qs) auto

lemma loaded_inv_None [simp]: "page s = None \<Longrightarrow> loaded_inv s"
  by (simp add: loaded_inv_def)

lemma loaded_inv_alerts [simp]: "loaded_inv (s\<lparr>alerts := a\<rparr>) = loaded_inv s"
  by (simp add: loaded_inv_def)

lemma loaded_inv_drop_pending:
  "loaded_inv s \<Longrightarrow> k < length (pending s) \<Longrightarrow> loaded_inv (s\<lparr>pending := remove_nth k (pending s)\<rparr>)"
  by (auto simp: loaded_inv_def count_list_remove_nth pred_option_def)

lemma loaded_inv_navigate: "app_inv s \<Longrightarrow> loaded_inv s \<Longrightarrow> loaded_inv (navigate r s)"
  by (auto simp: navigate_def app_inv_def loaded_inv_def mount_requests_eq count_list_tags_below
                 create_point_init_def)

lemma loaded_inv_callback:
  assumes inv: "loaded_inv s" and k: "k < length (pending s)"
    and pk: "pending s ! k = (mounts s, q)" and pg: "page s = Some st"
  shows "loaded_inv (s\<lparr>pending := remove_nth k (pending s), page := Some (apply_response q r st)\<rparr>)"
proof -
  let ?P = "pending s" and ?m = "mounts s"
  have pos: "0 < count_list ?P (?m, q)" using count_list_nth_pos [OF k pk] .
  from inv pg have sub: "set (selectedItems st) \<subseteq> set (map item_id (items st))"
    and uf: "selectedUf st \<in> set (''0'' # ufs st)"
    and cI: "count_list ?P (?m, ItemsRequest) \<le> 1" and cU: "count_list ?P (?m, UfsRequest) \<le> 1"
    and eI: "0 < count_list ?P (?m, ItemsRequest) \<longrightarrow> items st = [] \<and> selectedItems st = []"
    and eU: "0 < count_list ?P (?m, UfsRequest) \<longrightarrow> ufs st = [] \<and> selectedUf st = ''0''"
    by (simp_all add: loaded_inv_def)
  show ?thesis
  proof (cases "q = ItemsRequest")
    case True
    with pos eI have "selectedItems st = []" by simp
    with True k pk uf cI cU eU show ?thesis
      by (auto simp: loaded_inv_def count_list_remove_nth apply_response_ufs split: response.splits)
  next
    case notI: False
    show ?thesis
    proof (cases "q = UfsRequest")
      case True
      with pos eU have "selectedUf st = ''0''" by simp
      with True k pk sub cI cU eI show ?thesis
        by (auto simp: loaded_inv_def count_list_remove_nth apply_response_items split: response.splits)
    next
      case False
      have "items (apply_response q r st) = items st" "ufs (apply_response q r st) = ufs st"
        using notI False by (simp_all add: apply_response_items apply_response_ufs split: request.splits)
      with notI False k pk sub uf cI cU eI eU show ?thesis
        by (simp add: loaded_inv_def count_list_remove_nth)
    qed
  qed
qed

lemma loaded_inv_page_event:
  assumes inv: "loaded_inv s" shows "loaded_inv (app_step s (PageEvent e))"
proof (cases "page s")
  case None
  then show ?thesis by simp
next
  case (Some st)
  show ?thesis
  proof (cases "page_event_enabled st e")
    case en: True
    obtain st' qs where ps: "page_step st e = (st', qs)" by fastforce
    have c: "count_list qs ItemsRequest = 0" "count_list qs UfsRequest = 0"
      using page_step_no_load_request [of st e] ps by simp_all
    from inv Some have
      sub: "set (selectedItems st) \<subseteq> set (map item_id (items st))"
      and uf: "selectedUf st \<in> set (''0'' # ufs st)"
      and eI: "0 < count_list (pending s) (mounts s, ItemsRequest) \<longrightarrow> items st = [] \<and> selectedItems st = []"
      and eU: "0 < count_list (pending s) (mounts s, UfsRequest) \<longrightarrow> ufs st = [] \<and> selectedUf st = ''0''"
      and cI: "count_list (pending s) (mounts s, ItemsRequest) \<le> 1"
      and cU: "count_list (pending s) (mounts s, UfsRequest) \<le> 1"
      by (simp_all add: loaded_inv_def)
    have same: "items st' = items st" "ufs st' = ufs st"
      using page_step_items [of st e] page_step_ufs [of st e] ps by simp_all
    have "set (selectedItems st') \<subseteq> set (map item_id (items st'))"
      using page_step_selected_subset [OF en sub] ps same by simp
    moreover have "selectedUf st' \<in> set (''0'' # ufs st')"
      using page_step_selected_uf [OF en uf] ps same by simp
    moreover have "0 < count_list (pending s) (mounts s, ItemsRequest) \<longrightarrow> items st' = [] \<and> selectedItems st' = []"
      using eI page_step_selected_empty [OF en] ps same by auto
    moreover have "0 < count_list (pending s) (mounts s, UfsRequest) \<longrightarrow> ufs st' = [] \<and> selectedUf st' = ''0''"
      using eU page_step_selected_uf_placeholder [OF en] ps same by auto
    ultimately show ?thesis
      using Some en ps c cI cU by (simp add: loaded_inv_def count_list_tagged_requests)
  next
    case False
    with Some inv show ?thesis by simp
  qed
qed

lemma loaded_inv_step: "app_inv s \<Longrightarrow> loaded_inv s \<Longrightarrow> loaded_inv (app_step s e)"
proof (cases e)
  case ClickLink
  assume "app_inv s" "loaded_inv s"
  then show ?thesis using ClickLink by (simp add: loaded_inv_navigate)
next
  case (PageEvent pe)
  assume "loaded_inv s"
  then show ?thesis unfolding PageEvent by (rule loaded_inv_page_event)
next
  case (Deliver k r)
  assume ainv: "app_inv s" and inv: "loaded_inv s"
  show ?thesis
  proof (cases "k < length (pending s)")
    case False
    with Deliver inv show ?thesis by simp
  next
    case k: True
    obtain inst q where pk: "pending s ! k = (inst, q)" by fastforce
    let ?s1 = "s\<lparr>pending := remove_nth k (pending s)\<rparr>"
    have s1: "loaded_inv ?s1" by (rule loaded_inv_drop_pending [OF inv k])
    have a1: "app_inv ?s1" by (rule app_inv_drop_pending [OF ainv])
    have "loaded_inv (complete inst q r ?s1)"
    proof (cases "\<exists>d. q = PointsPost d")
      case True
      then show ?thesis using s1 a1 by (cases r) (auto simp: loaded_inv_navigate)
    next
      case False
      show ?thesis
      proof (cases "page s")
        case None
        with False s1 show ?thesis by (simp add: complete_callback)
      next
        case (Some st)
        show ?thesis
        proof (cases "inst = mounts s")
          case True
          with False Some pk loaded_inv_callback [OF inv k _ Some, of q r] show ?thesis
            by (simp add: complete_callback)
        next
          case notm: False
          with False Some s1 show ?thesis by (simp add: complete_callback)
        qed
      qed
    qed
    with Deliver k pk show ?thesis by simp
  qed
qed

lemma loaded_inv_init [simp]: "loaded_inv app_init"
  by (simp add: loaded_inv_def app_init_def)

lemma reachable_loaded_inv: "reachable s \<Longrightarrow> app_inv s \<and> loaded_inv s"
  by (induction rule: reachable.induct) (simp_all add: app_inv_step loaded_inv_step)

lemma sample_loaded_eq:
  "sample_loaded =
     \<lparr>route = CreatePointRoute, page = Some (create_point_init\<lparr>ufs := [''SP'', ''RJ'']\<rparr>), mounts = 1,
      pending = [(1, GeolocationRequest), (1, ItemsRequest)], alerts = []\<rparr>"
  by (simp add: sample_loaded_def sample_ufs_def app_simps page_simps mount_requests_eq)

lemma sample_sp_eq:
  "sample_sp =
     \<lparr>route = CreatePointRoute, page = Some (create_point_init\<lparr>ufs := [''SP'', ''RJ''], selectedUf := ''SP''\<rparr>),
      mounts = 1, pending = [(1, GeolocationRequest), (1, ItemsRequest), (1, CitiesRequest ''SP'')],
      alerts = []\<rparr>"
  by (simp add: sample_sp_def sample_loaded_eq page_simps)

lemma sample_submitted_pending:
  "pending sample_submitted =
     [(1, GeolocationRequest), (1, ItemsRequest),
      (1, PointsPost (submit_form_data (create_point_init\<lparr>ufs := [''SP'', ''RJ'']\<rparr>)))]"
  by (simp add: sample_submitted_def sample_loaded_eq handleSubmit_def)

lemma sample_submitted_route: "route sample_submitted = CreatePointRoute"
  by (simp add: sample_submitted_def sample_loaded_eq handleSubmit_def)

section \<open>Properties of the application\<close>

text \<open>
  C1. In every reachable state, a mounted registration form is shown on
  \<open>/create-point\<close>, its selected ids have no duplicates, and its three contact
  fields are defined, so the submission never sends \<open>"undefined"\<close> for them.
\<close>

theorem reachable_page_safe:
  assumes "reachable s" and "page s = Some st"
  shows "route s = CreatePointRoute \<and> distinct (selectedItems st) \<and> form_data_wf (formData st)"
  using reachable_app_inv_step [OF assms(1)] assms(2) by (simp add: app_inv_def page_wf_def)

text \<open>
  C3. Choosing the placeholder option \<open>'0'\<close> of the state select never starts a
  city request: the set of requests in flight is unchanged.
\<close>

theorem select_placeholder_no_fetch:
  "pending (app_step s (PageEvent (SelectUf ''0''))) = pending s"
  by (simp add: handleSelectUf_def split: option.splits prod.splits)

text \<open>
  C4. Choosing a state \<open>uf\<close> other than the placeholder stores it and starts
  exactly one request, the city list of \<open>uf\<close> from the IBGE service, tagged with
  the mounted instance.
\<close>

theorem select_uf_fetches:
  assumes "page s = Some st" and "page_event_enabled st (SelectUf uf)" and "uf \<noteq> ''0''"
  shows "page (app_step s (PageEvent (SelectUf uf))) = Some (st\<lparr>selectedUf := uf\<rparr>) \<and>
         pending (app_step s (PageEvent (SelectUf uf))) = pending s @ [(mounts s, CitiesRequest uf)] \<and>
         request_url (CitiesRequest uf :: 'c request) = Some (ibge_cities_url uf)"
  using assms enabled_select_uf_changes [OF assms(2)]
  by (simp add: handleSelectUf_def uf_effect_def)

text \<open>
  C5. When a city request of the mounted instance completes with a list, the city
  list becomes exactly the returned names, in the returned order, replacing the
  previous list; nothing else on the page changes.
\<close>

theorem deliver_cities_replaces:
  assumes "k < length (pending s)" and "pending s ! k = (mounts s, CitiesRequest uf)"
    and "page s = Some st"
  shows "page (app_step s (Deliver k (CitiesData cs))) = Some (st\<lparr>cities := map nome cs\<rparr>)"
  using assms by simp

text \<open>
  C6. A submission whose request fails (any response but success) shows no
  acknowledgement and does not navigate: the only change is that the request is
  no longer in flight.
\<close>

theorem post_rejected_silent:
  assumes "k < length (pending s)" and "pending s ! k = (inst, PointsPost data)" and "r \<noteq> Posted"
  shows "app_step s (Deliver k r) = s\<lparr>pending := remove_nth k (pending s)\<rparr>"
  using assms by (cases r) simp_all

text \<open>
  C7. A successful submission shows the acknowledgement and navigates to the
  landing page, unmounting the form.
\<close>

theorem post_success_ack:
  assumes "k < length (pending s)" and "pending s ! k = (inst, PointsPost data)"
    and "route s = CreatePointRoute"
  shows "alerts (app_step s (Deliver k Posted)) = alerts s @ [submit_ack] \<and>
         route (app_step s (Deliver k Posted)) = HomeRoute \<and>
         page (app_step s (Deliver k Posted)) = None"
  using assms by (simp add: navigate_def)

text \<open>
  C15. Nothing prevents a second submission while the first is in flight: when
  the email value lets the browser submit, two clicks on the submit button put
  two identical POST requests in flight.
\<close>

theorem double_submit_two_posts:
  assumes "page s = Some st" and "email_constraint_ok (js_field (formData st) ''email'')"
  shows "pending (app_step (app_step s (PageEvent SubmitForm)) (PageEvent SubmitForm)) =
         pending s @ [(mounts s, PointsPost (submit_form_data st)),
                      (mounts s, PointsPost (submit_form_data st))]"
  using assms by (simp add: handleSubmit_def)

text \<open>
  C17. A map click replaces the selected position by the clicked coordinates,
  whatever it was before, and starts no request.
\<close>

theorem map_click_replaces:
  assumes "page s = Some st"
  shows "page (app_step s (PageEvent (MapClick lat lng))) = Some (st\<lparr>selectedPosition := (lat, lng)\<rparr>) \<and>
         pending (app_step s (PageEvent (MapClick lat lng))) = pending s"
  using assms by (simp add: handleMapClick_def)

text \<open>
  C18. In every reachable state, every selected item id is the id of a rendered
  tile, and the selected state is the placeholder or one of the listed states: the
  payload's \<open>items\<close> and \<open>uf\<close> only carry values the services returned
  (unlike its \<open>city\<close>, see C8).
\<close>

theorem reachable_selection_listed:
  assumes "reachable s" and "page s = Some st"
  shows "set (selectedItems st) \<subseteq> item_id ` set (items st) \<and> selectedUf st \<in> insert ''0'' (set (ufs st))"
  using reachable_loaded_inv [OF assms(1)] assms(2) by (auto simp: loaded_inv_def)

section \<open>Witnesses\<close>

theorem reachable_page_safe_witness:
  "reachable (app_step (app_init :: int app) ClickLink) \<and>
   page (app_step (app_init :: int app) ClickLink) = Some create_point_init \<and>
   route (app_step (app_init :: int app) ClickLink) = CreatePointRoute \<and>
   distinct (selectedItems (create_point_init :: int cps)) \<and>
   form_data_wf (formData (create_point_init :: int cps))"
proof -
  have r: "reachable (app_step (app_init :: int app) ClickLink)"
    by (rule reachable.step [OF reachable.init])
  have p: "page (app_step (app_init :: int app) ClickLink) = Some create_point_init"
    by (simp add: app_simps)
  show ?thesis using reachable_page_safe [OF r p] r p by simp
qed

theorem select_uf_fetches_witness:
  "page sample_loaded = Some (create_point_init\<lparr>ufs := [''SP'', ''RJ'']\<rparr>) \<and>
   page_event_enabled (create_point_init\<lparr>ufs := [''SP'', ''RJ'']\<rparr> :: int cps) (SelectUf ''SP'') \<and> ''SP'' \<noteq> ''0'' \<and>
   pending (app_step sample_loaded (PageEvent (SelectUf ''SP''))) = pending sample_loaded @ [(mounts sample_loaded, CitiesRequest ''SP'')]"
proof -
  have h1: "page sample_loaded = Some (create_point_init\<lparr>ufs := [''SP'', ''RJ'']\<rparr>)"
    by (simp add: sample_loaded_eq)
  have h2: "page_event_enabled (create_point_init\<lparr>ufs := [''SP'', ''RJ'']\<rparr> :: int cps) (SelectUf ''SP'')"
    by (simp add: page_simps)
  have h3: "''SP'' \<noteq> ''0''" by simp
  show ?thesis using select_uf_fetches [OF h1 h2 h3] h1 h2 h3 by simp
qed

theorem deliver_cities_replaces_witness:
  "page (app_step sample_sp (Deliver 2 (CitiesData [\<lparr>nome = ''Campinas''\<rparr>, \<lparr>nome = ''Santos''\<rparr>]))) =
   Some (create_point_init\<lparr>ufs := [''SP'', ''RJ''], selectedUf := ''SP'', cities := [''Campinas'', ''Santos'']\<rparr>)"
proof -
  have h1: "2 < length (pending sample_sp)" by (simp add: sample_sp_eq)
  have h2: "pending sample_sp ! 2 = (mounts sample_sp, CitiesRequest ''SP'')" by (simp add: sample_sp_eq)
  have h3: "page sample_sp = Some (create_point_init\<lparr>ufs := [''SP'', ''RJ''], selectedUf := ''SP''\<rparr>)"
    by (simp add: sample_sp_eq)
  show ?thesis using deliver_cities_replaces [OF h1 h2 h3, of "[\<lparr>nome = ''Campinas''\<rparr>, \<lparr>nome = ''Santos''\<rparr>]"]
    by simp
qed

theorem post_rejected_silent_witness:
  "app_step sample_submitted (Deliver 2 Rejected) = sample_submitted\<lparr>pending := remove_nth 2 (pending sample_submitted)\<rparr>"
  using post_rejected_silent [OF _ _, of 2 sample_submitted 1 "submit_form_data (create_point_init\<lparr>ufs := [''SP'', ''RJ'']\<rparr>)" Rejected]
  by (simp add: sample_submitted_pending)

theorem post_success_ack_witness:
  "alerts (app_step sample_submitted (Deliver 2 Posted)) = alerts sample_submitted @ [submit_ack] \<and>
   route (app_step sample_submitted (Deliver 2 Posted)) = HomeRoute"
  using post_success_ack [of 2 sample_submitted 1 "submit_form_data (create_point_init\<lparr>ufs := [''SP'', ''RJ'']\<rparr>)"]
  by (simp add: sample_submitted_pending sample_submitted_route)

theorem double_submit_two_posts_witness:
  "pending (app_step (app_step sample_loaded (PageEvent SubmitForm)) (PageEvent SubmitForm)) =
   pending sample_loaded @ [(1, PointsPost (submit_form_data (create_point_init\<lparr>ufs := [''SP'', ''RJ'']\<rparr>))),
                            (1, PointsPost (submit_form_data (create_point_init\<lparr>ufs := [''SP'', ''RJ'']\<rparr>)))]"
  using double_submit_two_posts [of sample_loaded "create_point_init\<lparr>ufs := [''SP'', ''RJ'']\<rparr>"]
  by (simp add: sample_loaded_eq create_point_init_def)

theorem map_click_replaces_witness:
  "page (app_step sample_loaded (PageEvent (MapClick 3 4))) =
   Some (create_point_init\<lparr>ufs := [''SP'', ''RJ''], selectedPosition := (3, 4)\<rparr>)"
  using map_click_replaces [of sample_loaded "create_point_init\<lparr>ufs := [''SP'', ''RJ'']\<rparr>" 3 4]
  by (simp add: sample_loaded_eq)
theorem reachable_selection_listed_witness:
  "reachable (app_run (app_init :: int app)
     [ClickLink, Deliver 1 (ItemsData [\<lparr>item_id = 1, title = ''Papel'', image_url = ''papel.svg''\<rparr>]),
      PageEvent (SelectItem 1)]) \<and>
   set [1] \<subseteq> item_id ` set [\<lparr>item_id = 1, title = ''Papel'', image_url = ''papel.svg''\<rparr>] \<and>
   ''0'' \<in> insert ''0'' (set [])"
proof -
  let ?it = "\<lparr>item_id = 1, title = ''Papel'', image_url = ''papel.svg''\<rparr>"
  let ?s = "app_run (app_init :: int app) [ClickLink, Deliver 1 (ItemsData [?it]), PageEvent (SelectItem 1)]"
  have r: "reachable ?s" by (rule reachable_app_run [OF reachable.init])
  have p: "page ?s = Some (create_point_init\<lparr>items := [?it], selectedItems := [1]\<rparr>)"
    by (simp add: app_simps page_simps mount_requests_eq toggle_selected_def js_find_index_def)
  show ?thesis using reachable_selection_listed [OF r p] r by (simp add: create_point_init_def)
qed

end
