(* ===== verification/Cascade.thy ===== *)
theory Cascade
  imports App
begin

text \<open>
  The state/city cascade of \<open>src/src/pages/CreatePoint/index.tsx\<close> (the
  \<open>[selectedUf]\<close> effect, lines 74--87, and its callback \<open>setCities\<close>) against
  the contract the spec assumes of the IBGE service: each state has a city list
  (\<open>svc\<close>), and the replies to the mounted instance's city requests arrive in
  the order the requests were made. \<open>in_order_reachable svc\<close> is the set of
  states of the runs of \<open>App.app_step\<close> whose deliveries keep that contract; it
  is a subset of \<open>App.reachable\<close>. The invariant \<open>cities_current\<close> says what the
  city list is in such a state: the service's list of the selected state once no
  city request of the instance is pending, and otherwise the last city request
  pending is the one for the selected state. The contract is needed: by \<open>App.deliver_cities_replaces\<close>
  (C5) every city reply of the mounted instance overwrites the list, so out of
  order a late reply for an earlier state wins.
\<close>

section \<open>Definitions\<close>

type_synonym city_service = "string \<Rightarrow> ibge_city_response list"

definition city_request_uf :: "nat \<Rightarrow> nat \<times> 'c request \<Rightarrow> string list" where
  "city_request_uf m p = (case p of (i, CitiesRequest u) \<Rightarrow> if i = m then [u] else [] | _ \<Rightarrow> [])"

definition city_requests_of :: "nat \<Rightarrow> (nat \<times> 'c request) list \<Rightarrow> string list" where
  "city_requests_of m ps = concat (map (city_request_uf m) ps)"

fun is_user_event :: "'c app_event \<Rightarrow> bool" where
  "is_user_event (Deliver k r) = False"
| "is_user_event _ = True"

definition in_order_delivery :: "city_service \<Rightarrow> 'c app \<Rightarrow> nat \<Rightarrow> 'c response \<Rightarrow> bool" where
  "in_order_delivery svc s k r \<longleftrightarrow>
     k < length (pending s) \<and>
     (case pending s ! k of
        (i, CitiesRequest u) \<Rightarrow> r = CitiesData (svc u) \<and> city_requests_of i (take k (pending s)) = []
      | _ \<Rightarrow> True)"

inductive in_order_reachable :: "city_service \<Rightarrow> 'c::zero app \<Rightarrow> bool" for svc where
  init: "in_order_reachable svc app_init"
| user: "in_order_reachable svc s \<Longrightarrow> is_user_event e \<Longrightarrow> in_order_reachable svc (app_step s e)"
| deliver: "in_order_reachable svc s \<Longrightarrow> in_order_delivery svc s k r \<Longrightarrow>
    in_order_reachable svc (app_step s (Deliver k r))"

definition cities_current :: "city_service \<Rightarrow> 'c app \<Rightarrow> bool" where
  "cities_current svc s \<longleftrightarrow>
     pred_option (\<lambda>st. selectedUf st \<noteq> ''0'' \<longrightarrow>
        (if city_requests_of (mounts s) (pending s) = [] then cities st = map nome (svc (selectedUf st))
         else last (city_requests_of (mounts s) (pending s)) = selectedUf st))
       (page s)"

fun first_city_request :: "nat \<Rightarrow> nat \<Rightarrow> (nat \<times> 'c request) list \<Rightarrow> (nat \<times> string) option" where
  "first_city_request m k [] = None"
| "first_city_request m k (p # ps) =
     (case city_request_uf m p of [u] \<Rightarrow> Some (k, u) | _ \<Rightarrow> first_city_request m (Suc k) ps)"

section \<open>Sample service\<close>

definition sample_service :: city_service where
  "sample_service uf =
     (if uf = ''SP'' then [\<lparr>nome = ''Campinas''\<rparr>, \<lparr>nome = ''Santos''\<rparr>]
      else if uf = ''RJ'' then [\<lparr>nome = ''Rio de Janeiro''\<rparr>, \<lparr>nome = ''Niteroi''\<rparr>] else [])"

definition sample_two_pending :: "int app" where
  "sample_two_pending = app_step sample_sp (PageEvent (SelectUf ''RJ''))"

section \<open>Lemmas\<close>

lemma city_requests_of_simps [simp]:
  "city_requests_of m [] = []"
  "city_requests_of m (p # ps) = city_request_uf m p @ city_requests_of m ps"
  "city_requests_of m (ps @ qs) = city_requests_of m ps @ city_requests_of m qs"
  by (simp_all add: city_requests_of_def)

lemma city_request_uf_simps [simp]:
  "city_request_uf m (i, CitiesRequest u) = (if i = m then [u] else [])"
  "city_request_uf m (i, GeolocationRequest) = []"
  "city_request_uf m (i, ItemsRequest) = []"
  "city_request_uf m (i, UfsRequest) = []"
  "city_request_uf m (i, PointsPost d) = []"
  by (simp_all add: city_request_uf_def)

lemma city_request_uf_cases:
  "city_request_uf m p = [] \<or> (\<exists>u. city_request_uf m p = [u] \<and> p = (m, CitiesRequest u))"
  by (auto simp: city_request_uf_def split: prod.splits request.splits)

lemma city_requests_of_remove_nth:
  assumes "k < length ps"
  shows "city_requests_of m ps =
           city_requests_of m (take k ps) @ city_request_uf m (ps ! k) @ city_requests_of m (drop (Suc k) ps)"
    and "city_requests_of m (remove_nth k ps) = city_requests_of m (take k ps) @ city_requests_of m (drop (Suc k) ps)"
proof -
  have "ps = take k ps @ ps ! k # drop (Suc k) ps" using assms by (simp add: id_take_nth_drop)
  then show "city_requests_of m ps =
           city_requests_of m (take k ps) @ city_request_uf m (ps ! k) @ city_requests_of m (drop (Suc k) ps)"
    by (metis city_requests_of_simps(2,3))
  show "city_requests_of m (remove_nth k ps) = city_requests_of m (take k ps) @ city_requests_of m (drop (Suc k) ps)"
    by (simp add: remove_nth_def)
qed

lemma first_city_request_Some:
  "first_city_request m k ps = Some (j, u) \<Longrightarrow>
   k \<le> j \<and> j - k < length ps \<and> ps ! (j - k) = (m, CitiesRequest u) \<and>
   city_requests_of m (take (j - k) ps) = []"
proof (induction m k ps rule: first_city_request.induct)
  case (1 m k)
  then show ?case by simp
next
  case (2 m k p ps)
  show ?case
  proof (cases "city_request_uf m p = []")
    case True
    with "2.prems" have "first_city_request m (Suc k) ps = Some (j, u)" by simp
    with "2.IH" True have ih: "Suc k \<le> j \<and> j - Suc k < length ps \<and> ps ! (j - Suc k) = (m, CitiesRequest u) \<and>
        city_requests_of m (take (j - Suc k) ps) = []" by simp
    then have "j - k = Suc (j - Suc k)" by arith
    with ih True show ?thesis by simp
  next
    case False
    with city_request_uf_cases [of m p] obtain v where v: "city_request_uf m p = [v]" "p = (m, CitiesRequest v)"
      by blast
    with "2.prems" show ?thesis by simp
  qed
qed

lemma first_city_request_None:
  "first_city_request m k ps = None \<Longrightarrow> city_requests_of m ps = []"
proof (induction m k ps rule: first_city_request.induct)
  case (1 m k)
  then show ?case by simp
next
  case (2 m k p ps)
  then show ?case
    using city_request_uf_cases [of m p] by (auto split: list.splits)
qed

lemma city_requests_of_remove_other:
  "k < length ps \<Longrightarrow> city_request_uf m (ps ! k) = [] \<Longrightarrow>
   city_requests_of m (remove_nth k ps) = city_requests_of m ps"
  using city_requests_of_remove_nth [of k ps m] by simp

lemma city_requests_of_tagged:
  "city_requests_of m (map (Pair j) qs) =
     (if j = m then concat (map (\<lambda>q. case q of CitiesRequest u \<Rightarrow> [u] | _ \<Rightarrow> []) qs) else [])"
  by (induction qs) (auto simp: city_request_uf_def split: request.splits)

lemma apply_response_cities:
  "cities (apply_response q r st) =
     (case (q, r) of (CitiesRequest u, CitiesData cs) \<Rightarrow> map nome cs | _ \<Rightarrow> cities st)"
  by (induction q r st rule: apply_response.induct) (simp_all split: request.splits)

lemma page_step_cities [simp]: "cities (fst (page_step st e)) = cities st"
  by (cases e) (simp_all add: page_simps)

lemma page_step_city_requests:
  "page_event_enabled st e \<Longrightarrow>
   concat (map (\<lambda>q. case q of CitiesRequest u \<Rightarrow> [u] | _ \<Rightarrow> []) (snd (page_step st e))) =
     (if selectedUf (fst (page_step st e)) = selectedUf st \<or> selectedUf (fst (page_step st e)) = ''0''
      then [] else [selectedUf (fst (page_step st e))])"
  using enabled_select_uf_changes [of st] by (cases e) (auto simp: page_simps)

lemma cities_current_transfer:
  "cities_current svc s \<Longrightarrow>
   city_requests_of (mounts s') (pending s') = city_requests_of (mounts s) (pending s) \<Longrightarrow>
   map_option (\<lambda>st. (selectedUf st, cities st)) (page s') = map_option (\<lambda>st. (selectedUf st, cities st)) (page s) \<Longrightarrow>
   cities_current svc s'"
  by (cases "page s"; cases "page s'") (auto simp: cities_current_def)

lemma cities_current_None [simp]: "page s = None \<Longrightarrow> cities_current svc s"
  by (simp add: cities_current_def)

lemma cities_current_alerts [simp]: "cities_current svc (s\<lparr>alerts := a\<rparr>) = cities_current svc s"
  by (simp add: cities_current_def)

lemma cities_current_navigate: "cities_current svc s \<Longrightarrow> cities_current svc (navigate r s)"
  by (simp add: navigate_def cities_current_def create_point_init_def)

lemma cities_current_page_event:
  assumes inv: "cities_current svc s" shows "cities_current svc (app_step s (PageEvent e))"
proof (cases "page s")
  case None
  then show ?thesis by simp
next
  case (Some st)
  show ?thesis
  proof (cases "page_event_enabled st e")
    case en: True
    obtain st' qs where ps: "page_step st e = (st', qs)" by fastforce
    let ?cr = "city_requests_of (mounts s) (pending s)"
    have new: "city_requests_of (mounts s) (pending s @ map (Pair (mounts s)) qs) =
        ?cr @ (if selectedUf st' = selectedUf st \<or> selectedUf st' = ''0'' then [] else [selectedUf st'])"
      using page_step_city_requests [OF en] ps by (simp add: city_requests_of_tagged)
    have "cities st' = cities st" using page_step_cities [of st e] ps by simp
    with inv Some en ps new show ?thesis
      by (auto simp: cities_current_def)
  next
    case False
    with Some inv show ?thesis by simp
  qed
qed

lemma cities_current_deliver:
  assumes inv: "cities_current svc s" and d: "in_order_delivery svc s k r"
  shows "cities_current svc (app_step s (Deliver k r))"
proof -
  let ?P = "pending s" and ?m = "mounts s"
  let ?s1 = "s\<lparr>pending := remove_nth k ?P\<rparr>"
  have k: "k < length ?P" using d by (simp add: in_order_delivery_def)
  obtain i q where pk: "?P ! k = (i, q)" by fastforce
  have step: "app_step s (Deliver k r) = complete i q r ?s1" using k pk by simp
  show ?thesis
  proof (cases "city_request_uf ?m (?P ! k) = []")
    case nocity: True
    have s1: "cities_current svc ?s1"
      by (rule cities_current_transfer [OF inv]) (simp_all add: city_requests_of_remove_other [OF k nocity])
    show ?thesis
    proof (cases "\<exists>d. q = PointsPost d")
      case True
      then show ?thesis using step s1 by (cases r) (auto simp: cities_current_navigate)
    next
      case False
      have "cities (apply_response q r st) = cities st" if "i = ?m" for st
        using nocity pk that False by (auto simp: apply_response_cities city_request_uf_def split: request.splits response.splits)
      then show ?thesis
        using step s1 False cities_current_transfer [OF s1, of "complete i q r ?s1"]
        by (cases "page s") (auto simp: complete_callback)
    qed
  next
    case False
    with city_request_uf_cases [of ?m "?P ! k"] obtain u
      where u: "city_request_uf ?m (?P ! k) = [u]" "?P ! k = (?m, CitiesRequest u)" by blast
    with pk have iq: "i = ?m" "q = CitiesRequest u" by simp_all
    with d pk have r: "r = CitiesData (svc u)" and first: "city_requests_of ?m (take k ?P) = []"
      by (simp_all add: in_order_delivery_def)
    let ?T = "city_requests_of ?m (remove_nth k ?P)"
    have cr: "city_requests_of ?m ?P = u # ?T"
      using city_requests_of_remove_nth [OF k, of ?m] u first by simp
    show ?thesis
    proof (cases "page s")
      case None
      then show ?thesis using step iq by simp
    next
      case (Some st)
      have "selectedUf st \<noteq> ''0'' \<Longrightarrow> (if ?T = [] then u = selectedUf st else last ?T = selectedUf st)"
        using inv Some cr by (auto simp: cities_current_def split: if_splits)
      then show ?thesis
        using step iq r Some by (auto simp: cities_current_def split: if_splits)
    qed
  qed
qed

lemma cities_current_user:
  assumes inv: "cities_current svc s" and u: "is_user_event e"
  shows "cities_current svc (app_step s e)"
proof (cases e)
  case ClickLink
  then show ?thesis using inv by (simp add: cities_current_navigate)
next
  case (PageEvent pe)
  show ?thesis unfolding PageEvent by (rule cities_current_page_event [OF inv])
next
  case (Deliver k r)
  then show ?thesis using u by simp
qed

lemma in_order_reachable_cities_current: "in_order_reachable svc s \<Longrightarrow> cities_current svc s"
  by (induction rule: in_order_reachable.induct)
     (simp_all del: app_step.simps add: app_init_def cities_current_user cities_current_deliver)

lemma in_order_reachable_reachable: "in_order_reachable svc s \<Longrightarrow> reachable s"
  by (induction rule: in_order_reachable.induct) (auto intro: reachable.intros simp del: app_step.simps)

lemma first_city_request_deliver:
  assumes f: "first_city_request (mounts s) 0 (pending s) = Some (k, u)"
  shows "k < length (pending s)"
    and "city_requests_of (mounts s) (pending s) = u # city_requests_of (mounts s) (remove_nth k (pending s))"
    and "app_step s (Deliver k (CitiesData cs)) =
           s\<lparr>pending := remove_nth k (pending s),
             page := map_option (\<lambda>st. st\<lparr>cities := map nome cs\<rparr>) (page s)\<rparr>"
    and "in_order_delivery svc s k (CitiesData (svc u))"
proof -
  have k: "k < length (pending s)" and pk: "pending s ! k = (mounts s, CitiesRequest u)"
    and first: "city_requests_of (mounts s) (take k (pending s)) = []"
    using first_city_request_Some [OF f] by simp_all
  then show "k < length (pending s)" by simp
  show "city_requests_of (mounts s) (pending s) = u # city_requests_of (mounts s) (remove_nth k (pending s))"
    using city_requests_of_remove_nth [OF k, of "mounts s"] pk first by (simp add: city_request_uf_def)
  show "app_step s (Deliver k (CitiesData cs)) =
           s\<lparr>pending := remove_nth k (pending s),
             page := map_option (\<lambda>st. st\<lparr>cities := map nome cs\<rparr>) (page s)\<rparr>"
    using k pk by (cases "page s") simp_all
  show "in_order_delivery svc s k (CitiesData (svc u))"
    using k pk first by (simp add: in_order_delivery_def)
qed

lemma first_city_request_shrinks:
  assumes f: "first_city_request (mounts s) 0 (pending s) = Some (k, u)"
  shows "length (pending (app_step s (Deliver k (CitiesData cs)))) < length (pending s)"
  using first_city_request_deliver(1,3) [OF f] by simp

lemma sample_sp_in_order: "in_order_reachable sample_service sample_sp"
proof -
  have r1: "in_order_reachable sample_service (app_step (app_init :: int app) ClickLink)"
    by (rule in_order_reachable.user [OF in_order_reachable.init]) simp
  have r2: "in_order_reachable sample_service (app_step (app_step (app_init :: int app) ClickLink) (Deliver 2 sample_ufs))"
    by (rule in_order_reachable.deliver [OF r1]) (simp add: in_order_delivery_def app_simps mount_requests_eq)
  have "in_order_reachable sample_service (app_step sample_loaded (PageEvent (SelectUf ''SP'')))"
    unfolding sample_loaded_def app_run.simps by (rule in_order_reachable.user [OF r2]) simp
  then show ?thesis by (simp only: sample_sp_def)
qed

lemma sample_two_pending_in_order: "in_order_reachable sample_service sample_two_pending"
  unfolding sample_two_pending_def by (rule in_order_reachable.user [OF sample_sp_in_order]) simp

lemma sample_two_pending_eq:
  "sample_two_pending =
     \<lparr>route = CreatePointRoute, page = Some (create_point_init\<lparr>ufs := [''SP'', ''RJ''], selectedUf := ''RJ''\<rparr>),
      mounts = 1,
      pending = [(1, GeolocationRequest), (1, ItemsRequest), (1, CitiesRequest ''SP''), (1, CitiesRequest ''RJ'')],
      alerts = []\<rparr>"
  by (simp add: sample_two_pending_def sample_sp_eq page_simps)

section \<open>Properties\<close>

text \<open>
  C19. Under the contract the spec assumes (the service answers each state with
  its cities, and the replies of the mounted instance arrive in request order),
  the city list refines the service: in every reachable state where a state is
  selected and none of the instance's city requests is pending, the list shown
  is the service's list for the selected state.
\<close>

theorem in_order_cities_refine:
  assumes "in_order_reachable svc s" and "page s = Some st" and "selectedUf st \<noteq> ''0''"
    and "city_requests_of (mounts s) (pending s) = []"
  shows "cities st = map nome (svc (selectedUf st))"
  using in_order_reachable_cities_current [OF assms(1)] assms(2-4) by (simp add: cities_current_def)

text \<open>Witness of C19: select SP, and the SP reply arrives.\<close>

theorem in_order_cities_refine_witness:
  "cities (the (page (app_step sample_sp (Deliver 2 (CitiesData (sample_service ''SP'')))))) =
     [''Campinas'', ''Santos'']"
proof -
  let ?s = "app_step sample_sp (Deliver 2 (CitiesData (sample_service ''SP'')))"
  have r: "in_order_reachable sample_service ?s"
    by (rule in_order_reachable.deliver [OF sample_sp_in_order])
       (simp add: in_order_delivery_def sample_sp_eq)
  have p: "page ?s = Some (the (page ?s))" and u: "selectedUf (the (page ?s)) \<noteq> ''0''"
    and c: "city_requests_of (mounts ?s) (pending ?s) = []"
    by (simp_all add: sample_sp_eq app_simps)
  show ?thesis
    using in_order_cities_refine [OF r p u c] u by (simp add: sample_service_def sample_sp_eq app_simps)
qed

end
