(* ===== verification/Settle.thy ===== *)
theory Settle
  imports Cascade
begin

text \<open>
  Letting the cascade finish: \<open>settle svc s\<close> delivers, with the service's list,
  the oldest pending city request of the mounted instance, until none is left.
  Each delivery is one \<open>App.app_step\<close> with a \<open>Deliver\<close> event that keeps the
  in-order contract of \<open>Cascade\<close>, so the states \<open>settle\<close> passes through are runs
  of the application. It terminates because each delivery removes one pending
  request (the measure is the length of \<open>pending\<close>); the lemmas give its exact
  result and the liveness of the cascade.
\<close>

section \<open>Definitions\<close>

function settle :: "city_service \<Rightarrow> 'c::zero app \<Rightarrow> 'c app" where
  "settle svc s =
     (case first_city_request (mounts s) 0 (pending s) of
        None \<Rightarrow> s
      | Some (k, u) \<Rightarrow> settle svc (app_step s (Deliver k (CitiesData (svc u)))))"
  by pat_completeness auto
termination
  by (relation "measure (\<lambda>(svc, s). length (pending s))") (auto simp del: app_step.simps intro: first_city_request_shrinks)

section \<open>Lemmas\<close>

lemma settle_in_order: "in_order_reachable svc s \<Longrightarrow> in_order_reachable svc (settle svc s)"
proof (induction svc s rule: settle.induct)
  case (1 svc s)
  show ?case
  proof (cases "first_city_request (mounts s) 0 (pending s)")
    case None
    with "1.prems" show ?thesis by simp
  next
    case (Some p)
    obtain k u where f: "first_city_request (mounts s) 0 (pending s) = Some (k, u)"
      using Some by (cases p) simp
    have "in_order_reachable svc (app_step s (Deliver k (CitiesData (svc u))))"
      by (rule in_order_reachable.deliver [OF "1.prems" first_city_request_deliver(4) [OF f]])
    with "1.IH" [OF f refl] f show ?thesis by simp
  qed
qed

lemma settle_result:
  "mounts (settle svc s) = mounts s \<and>
   city_requests_of (mounts s) (pending (settle svc s)) = [] \<and>
   length (pending (settle svc s)) + length (city_requests_of (mounts s) (pending s)) = length (pending s) \<and>
   page (settle svc s) =
     map_option (\<lambda>st. if city_requests_of (mounts s) (pending s) = [] then st
                      else st\<lparr>cities := map nome (svc (last (city_requests_of (mounts s) (pending s))))\<rparr>)
       (page s)"
proof (induction svc s rule: settle.induct)
  case (1 svc s)
  show ?case
  proof (cases "first_city_request (mounts s) 0 (pending s)")
    case None
    then show ?thesis using first_city_request_None [OF None] by (simp add: option.map_ident)
  next
    case (Some p)
    obtain k u where f: "first_city_request (mounts s) 0 (pending s) = Some (k, u)"
      using Some by (cases p) simp
    let ?s' = "app_step s (Deliver k (CitiesData (svc u)))"
    have k: "k < length (pending s)" by (rule first_city_request_deliver(1) [OF f])
    have cr: "city_requests_of (mounts s) (pending s) = u # city_requests_of (mounts s) (pending ?s')"
      using first_city_request_deliver(2,3) [OF f] by simp
    have s': "mounts ?s' = mounts s" "length (pending ?s') = length (pending s) - 1"
      "page ?s' = map_option (\<lambda>st. st\<lparr>cities := map nome (svc u)\<rparr>) (page s)"
      using first_city_request_deliver(3) [OF f] k by simp_all
    have "settle svc s = settle svc ?s'" using f by simp
    with "1.IH" [OF f refl] cr s' k show ?thesis
      by (cases "page s") auto
  qed
qed

section \<open>Properties\<close>

text \<open>
  C20. Under the in-order contract the cascade settles on the selected state:
  from every reachable state where a state is selected, the delivery of the
  pending city replies reaches a reachable state whose form is the same except
  that its city list is the service's list for the selected state.
\<close>

theorem in_order_cities_settle:
  assumes r: "in_order_reachable svc s" and p: "page s = Some st" and u: "selectedUf st \<noteq> ''0''"
  shows "in_order_reachable svc (settle svc s) \<and>
         page (settle svc s) = Some (st\<lparr>cities := map nome (svc (selectedUf st))\<rparr>)"
proof
  show "in_order_reachable svc (settle svc s)" by (rule settle_in_order [OF r])
  have cur: "cities_current svc s" by (rule in_order_reachable_cities_current [OF r])
  show "page (settle svc s) = Some (st\<lparr>cities := map nome (svc (selectedUf st))\<rparr>)"
  proof (cases "city_requests_of (mounts s) (pending s) = []")
    case True
    with cur p u have "cities st = map nome (svc (selectedUf st))" by (simp add: cities_current_def)
    with True p show ?thesis using settle_result [of svc s] by simp
  next
    case False
    with cur p u have "last (city_requests_of (mounts s) (pending s)) = selectedUf st"
      by (simp add: cities_current_def)
    with False p show ?thesis using settle_result [of svc s] by simp
  qed
qed

section \<open>Witnesses\<close>

text \<open>
  Witness of C20: after SP and then RJ are selected, both city requests are
  pending; delivered in order, the list ends as RJ's.
\<close>

theorem in_order_cities_settle_witness:
  "cities (the (page (settle sample_service sample_two_pending))) = [''Rio de Janeiro'', ''Niteroi'']"
proof -
  have p: "page sample_two_pending = Some (create_point_init\<lparr>ufs := [''SP'', ''RJ''], selectedUf := ''RJ''\<rparr>)"
    by (simp add: sample_two_pending_eq)
  have u: "selectedUf (create_point_init\<lparr>ufs := [''SP'', ''RJ''], selectedUf := ''RJ''\<rparr> :: int cps) \<noteq> ''0''"
    by simp
  show ?thesis
    using in_order_cities_settle [OF sample_two_pending_in_order p u] by (simp add: sample_service_def)
qed

end
