(* ===== verification/MapView.thy ===== *)
theory MapView
  imports App
begin

text \<open>
  The map of the registration form (\<open>src/src/pages/CreatePoint/index.tsx\<close> lines
  196--205): a Leaflet \<open><Map>\<close> centred on \<open>initialPosition\<close> at zoom 15 whose
  click handler is \<open>handleMapClick\<close>, with one \<open><Marker>\<close> at
  \<open>selectedPosition\<close>. The map library itself is a black box (the spec's
  "given a center and zoom, render; on click, report {lat, lng}"); a click is
  the page event \<open>MapClick\<close>. The lemmas show which state each part of the map
  reads, and that only a click moves the position that is submitted.
\<close>

section \<open>Definitions\<close>

record 'c map_props =
  center :: "'c \<times> 'c"
  zoom :: nat
  marker_position :: "'c \<times> 'c"

definition map_view :: "'c cps \<Rightarrow> 'c map_props" where
  "map_view st = \<lparr>center = initialPosition st, zoom = 15, marker_position = selectedPosition st\<rparr>"

fun is_map_click :: "'c app_event \<Rightarrow> bool" where
  "is_map_click (PageEvent (MapClick lat lng)) = True"
| "is_map_click _ = False"

definition position_unset :: "'c::zero app \<Rightarrow> bool" where
  "position_unset s \<longleftrightarrow> pred_option (\<lambda>st. selectedPosition st = (0, 0)) (page s)"

definition sample_located :: "int app" where
  "sample_located = app_run app_init [ClickLink, Deliver 0 (GeoPosition 7 8)]"

section \<open>Lemmas\<close>

lemma apply_response_selected_position [simp]:
  "selectedPosition (apply_response q r st) = selectedPosition st"
  by (induction q r st rule: apply_response.induct) simp_all

lemma page_navigate_home:
  "page (navigate HomeRoute s) = (if route s = HomeRoute then page s else None)"
  by (simp add: navigate_def)

lemma page_complete_position:
  "page (complete i q r s) = Some st' \<Longrightarrow> page s = Some st \<Longrightarrow> selectedPosition st' = selectedPosition st"
  by (cases "\<exists>d. q = PointsPost d")
     (auto simp: complete_callback page_navigate_home split: response.splits if_splits)

lemma page_complete_some:
  "page (complete i q r s) = Some st' \<Longrightarrow> \<exists>st. page s = Some st"
  by (cases "\<exists>d. q = PointsPost d")
     (auto simp: complete_callback page_navigate_home split: response.splits if_splits option.splits)

lemma page_step_position:
  "\<not> is_map_click (PageEvent e) \<Longrightarrow> selectedPosition (fst (page_step st e)) = selectedPosition st"
  by (cases e) (simp_all add: page_simps)

lemma position_unset_step:
  assumes u: "position_unset s" and e: "\<not> is_map_click e"
  shows "position_unset (app_step s e)"
proof (cases e)
  case ClickLink
  with u show ?thesis by (simp add: position_unset_def navigate_def create_point_init_def)
next
  case (PageEvent pe)
  obtain st' qs where ps: "page_step (the (page s)) pe = (st', qs)" by fastforce
  have "selectedPosition st' = selectedPosition (the (page s))"
    using page_step_position [of pe "the (page s)"] e PageEvent ps by simp
  with u PageEvent ps show ?thesis by (cases "page s") (auto simp: position_unset_def)
next
  case (Deliver k r)
  show ?thesis
  proof (cases "k < length (pending s)")
    case True
    obtain i q where pk: "pending s ! k = (i, q)" by fastforce
    let ?s1 = "s\<lparr>pending := remove_nth k (pending s)\<rparr>"
    have "position_unset (complete i q r ?s1)"
    proof (cases "page (complete i q r ?s1)")
      case (Some st')
      then obtain st where p: "page ?s1 = Some st" using page_complete_some by blast
      with Some page_complete_position [of i q r ?s1 st' st] u show ?thesis
        by (simp add: position_unset_def)
    qed (simp add: position_unset_def)
    with Deliver True pk show ?thesis by simp
  next
    case False
    with Deliver u show ?thesis by simp
  qed
qed

lemma position_unset_run:
  "position_unset s \<Longrightarrow> list_all (\<lambda>e. \<not> is_map_click e) es \<Longrightarrow> position_unset (app_run s es)"
  by (induction es arbitrary: s) (simp_all del: app_step.simps add: position_unset_step)

lemma sample_located_eq:
  "sample_located =
     \<lparr>route = CreatePointRoute, page = Some (create_point_init\<lparr>initialPosition := (7, 8)\<rparr>), mounts = 1,
      pending = [(1, ItemsRequest), (1, UfsRequest)], alerts = []\<rparr>"
  by (simp add: sample_located_def app_simps page_simps mount_requests_eq)

section \<open>Properties\<close>

text \<open>
  C21. No reply moves the marker: whatever request completes with whatever
  response, if the form is still shown its marker (and so the submitted
  position) is where it was.
\<close>

theorem deliver_keeps_marker:
  assumes "page s = Some st" and "page (app_step s (Deliver k r)) = Some st'"
  shows "marker_position (map_view st') = marker_position (map_view st)"
proof (cases "k < length (pending s)")
  case True
  obtain i q where "pending s ! k = (i, q)" by fastforce
  with True assms show ?thesis
    using page_complete_position [of i q r "s\<lparr>pending := remove_nth k (pending s)\<rparr>" st' st]
    by (simp add: map_view_def)
next
  case False
  with assms show ?thesis by simp
qed

text \<open>
  C22. The device position is never the position submitted: in every run from
  the start that contains no map click, whatever replies arrive (the geolocation
  reply included), a mounted form has its marker at (0, 0) and its submission
  sends latitude 0 and longitude 0. Only \<open>handleMapClick\<close> sets the position.
\<close>

theorem no_click_position_unset:
  assumes "list_all (\<lambda>e. \<not> is_map_click e) es" and "page (app_run (app_init :: 'c::zero app) es) = Some st"
  shows "marker_position (map_view st) = (0, 0) \<and>
         form_get (submit_form_data st) ''latitude'' = Some (FormNumber 0) \<and>
         form_get (submit_form_data st) ''longitude'' = Some (FormNumber 0)"
proof -
  have "position_unset (app_run (app_init :: 'c app) es)"
    by (rule position_unset_run [OF _ assms(1)]) (simp add: position_unset_def app_init_def)
  with assms(2) have "selectedPosition st = (0, 0)" by (simp add: position_unset_def)
  then show ?thesis by (simp add: map_view_def submit_form_data_def Let_def prod.case_eq_if)
qed

section \<open>Witnesses\<close>

text \<open>Witness of C21: the geolocation reply recentres the map and leaves the marker.\<close>

text \<open>
  Witness of C22: the device position (7, 8) arrives; the form still submits
  latitude 0.
\<close>

theorem no_click_position_unset_witness:
  "form_get (submit_form_data (the (page sample_located))) ''latitude'' = Some (FormNumber 0)"
proof -
  have nc: "list_all (\<lambda>e. \<not> is_map_click e) [ClickLink, Deliver 0 (GeoPosition (7::int) 8)]" by simp
  have p: "page (app_run (app_init :: int app) [ClickLink, Deliver 0 (GeoPosition 7 8)]) =
      Some (create_point_init\<lparr>initialPosition := (7, 8)\<rparr>)"
    by (simp add: app_simps page_simps mount_requests_eq)
  show ?thesis using no_click_position_unset [OF nc p] by (simp add: sample_located_eq)
qed

theorem deliver_keeps_marker_witness:
  "marker_position (map_view (the (page (app_step sample_located (Deliver 0 (ItemsData [])))))) = (0, 0)"
proof -
  have p: "page sample_located = Some (create_point_init\<lparr>initialPosition := (7, 8)\<rparr>)"
    by (simp add: sample_located_eq)
  have p': "page (app_step sample_located (Deliver 0 (ItemsData []))) =
      Some (the (page (app_step sample_located (Deliver 0 (ItemsData [])))))"
    by (simp add: sample_located_eq app_simps)
  show ?thesis
    using deliver_keeps_marker [OF p p'] by (simp add: map_view_def create_point_init_def)
qed

end
