(* ===== verification/Payload.thy ===== *)
theory Payload
  imports App
begin

text \<open>
  The \<open>items\<close> field of the payload of \<open>handleSubmit\<close>
  (\<open>src/src/pages/CreatePoint/index.tsx\<close> line 136), \<open>items.join(',')\<close>. The
  property bounds it: in every reachable state it lists at most as many ids as
  there are collection categories.
\<close>

section \<open>Definitions\<close>

definition items_field :: "'c cps \<Rightarrow> string" where
  "items_field st = js_join '','' (map js_int_to_string (selectedItems st))"

definition sample_two_items :: "int app" where
  "sample_two_items =
     app_run app_init
       [ClickLink,
        Deliver 1 (ItemsData [\<lparr>item_id = 1, title = ''Papel'', image_url = ''papel.svg''\<rparr>,
                              \<lparr>item_id = 2, title = ''Vidro'', image_url = ''vidro.svg''\<rparr>]),
        PageEvent (SelectItem 2), PageEvent (SelectItem 1)]"

section \<open>Lemmas\<close>

lemma length_split_on_js_join:
  "length (split_on CHR '','' (js_join '','' (map js_int_to_string xs))) = max 1 (length xs)"
proof (cases "xs = []")
  case True
  then show ?thesis by simp
next
  case False
  have "\<forall>w\<in>set (map js_int_to_string xs). CHR '','' \<notin> set w" by simp
  with False show ?thesis using split_on_js_join [of "map js_int_to_string xs" "CHR '',''"] by (cases xs) simp_all
qed

lemma distinct_subset_length:
  "distinct xs \<Longrightarrow> set xs \<subseteq> set (map f ys) \<Longrightarrow> length xs \<le> length ys"
  by (metis card_mono distinct_card List.finite_set card_length length_map order_trans)

lemma form_get_submit_items_field:
  "form_get (submit_form_data st) ''items'' = Some (FormText (items_field st))"
  by (simp add: form_get_submit_items items_field_def)

lemma sample_two_items_page:
  "page sample_two_items =
     Some (create_point_init\<lparr>items := [\<lparr>item_id = 1, title = ''Papel'', image_url = ''papel.svg''\<rparr>,
                                      \<lparr>item_id = 2, title = ''Vidro'', image_url = ''vidro.svg''\<rparr>],
                             selectedItems := [2, 1]\<rparr>)"
  by (simp add: sample_two_items_def app_simps page_simps mount_requests_eq)

section \<open>Properties\<close>

text \<open>
  C23. Although nothing limits the selection, in every reachable state the
  selected ids are at most as many as the listed categories, and the \<open>items\<close> field
  of the payload splits at its commas into exactly that many ids (one empty entry
  when none is selected).
\<close>

theorem reachable_items_bound:
  assumes "reachable s" and "page s = Some st"
  shows "length (selectedItems st) \<le> length (items st) \<and>
         length (split_on CHR '','' (items_field st)) = max 1 (length (selectedItems st))"
proof -
  have "app_inv s \<and> loaded_inv s" by (rule reachable_loaded_inv [OF assms(1)])
  then have "distinct (selectedItems st)" and "set (selectedItems st) \<subseteq> set (map item_id (items st))"
    using assms(2) by (simp_all add: app_inv_def page_wf_def loaded_inv_def)
  then show ?thesis
    by (simp add: distinct_subset_length items_field_def length_split_on_js_join)
qed

section \<open>Witnesses\<close>

text \<open>Witness of C23: two categories, both selected; the field is \<open>"2,1"\<close>.\<close>

theorem reachable_items_bound_witness:
  "length (split_on CHR '','' (items_field (the (page sample_two_items)))) = 2 \<and>
   items_field (the (page sample_two_items)) = ''2,1''"
proof -
  have r: "reachable sample_two_items"
    unfolding sample_two_items_def by (rule reachable_app_run [OF reachable.init])
  have p: "page sample_two_items = Some (the (page sample_two_items))"
    by (simp add: sample_two_items_page)
  have "items_field (the (page sample_two_items)) = ''2,1''"
    by (simp add: sample_two_items_page items_field_def create_point_init_def js_int_to_string_def dec_nat.simps digit_char_def)
  with reachable_items_bound [OF r p] show ?thesis
    by (simp add: sample_two_items_page create_point_init_def)
qed

end
