(* ===== verification/Views.thy ===== *)
theory Views
  imports App
begin

text \<open>
  The static markup of the two pages as an element tree: the whole render of
  \<open>Home\<close> (\<open>src/src/pages/Home/index.tsx\<close> lines 8--31) and the header of
  \<open>CreatePoint\<close> (\<open>src/src/pages/CreatePoint/index.tsx\<close> lines 150--158); the
  form below that header is the element tree of \<open>FormView\<close>. Text is kept as
  JavaScript strings of UTF-16 code units (the accented i of the heading is the
  unit 0xED); \<open>links\<close> collects the targets of the links a tree renders. The
  property shows that a click on an item tile flips the class
  \<open>Page.item_class\<close> renders for that tile only (lines 236--247).
\<close>

section \<open>Definitions\<close>

datatype html =
    HElement string "(string \<times> string) list" "html list"
  | HText string
  | HImg string string
  | HIcon string
  | HLink string "html list"

fun links :: "html \<Rightarrow> string list" where
  "links (HElement tag attrs children) = concat (map links children)"
| "links (HLink to children) = to # concat (map links children)"
| "links (HText s) = []"
| "links (HImg src alt) = []"
| "links (HIcon name) = []"

definition logo :: string where
  "logo = ''../../assets/logo.svg''"

definition home_view :: html where
  "home_view =
     HElement ''div'' [(''id'', ''page-home'')]
       [HElement ''div'' [(''className'', ''content'')]
         [HElement ''header'' [] [HImg logo ''Ecoleta''],
          HElement ''main'' []
            [HElement ''h1'' [] [HText (''Seu marketplace de coleta de res'' @ CHR 0xED # ''duos.'')],
             HElement ''p'' [] [HText ''Ajudamos as pessoas a encontrarem pontos de coleta de forma inteligente''],
             HLink ''/create-point''
               [HElement ''span'' [] [HIcon ''FiLogIn''],
                HElement ''strong'' [] [HText ''Cadastre um ponto de coleta'']]]]]"

definition create_point_header :: html where
  "create_point_header =
     HElement ''header'' []
       [HImg logo ''Ecoleta'',
        HLink ''/'' [HIcon ''FiArrowLeft'', HText ''Voltar para Home'']]"

section \<open>Properties\<close>

text \<open>
  C26. Clicking a tile flips that tile's rendered class between selected and
  unselected, and leaves the class of every tile with another id as it was.
\<close>

theorem select_item_flips_tile:
  "item_class (handleSelectItem st (item_id it)) it \<noteq> item_class st it \<and>
   (item_id it' \<noteq> item_id it \<longrightarrow> item_class (handleSelectItem st (item_id it)) it' = item_class st it')"
  by (auto simp: item_class_def handleSelectItem_def set_toggle_selected set_toggle_def)

section \<open>Witnesses\<close>

text \<open>Witness of C26: on a fresh form, clicking the paper tile marks it and not the glass tile.\<close>

theorem select_item_flips_tile_witness:
  "item_class (handleSelectItem (create_point_init :: int cps) 1)
      \<lparr>item_id = 1, title = ''Papel'', image_url = ''papel.svg''\<rparr> = ''selected'' \<and>
   item_class (handleSelectItem (create_point_init :: int cps) 1)
      \<lparr>item_id = 2, title = ''Vidro'', image_url = ''vidro.svg''\<rparr> = ''''"
  using select_item_flips_tile [of "create_point_init :: int cps"
      "\<lparr>item_id = 1, title = ''Papel'', image_url = ''papel.svg''\<rparr>"
      "\<lparr>item_id = 2, title = ''Vidro'', image_url = ''vidro.svg''\<rparr>"]
  by (simp add: item_class_def create_point_init_def handleSelectItem_def)

end
