(* ===== verification/Failures.thy ===== *)
theory Failures
  imports App
begin

text \<open>
  The error paths of the list loads of \<open>src/src/pages/CreatePoint/index.tsx\<close>.
  The mount effects (lines 62--73) attach only a \<open>then\<close> callback, so a rejected
  request is dropped (\<open>apply_response\<close> leaves the page as it is), and nothing
  issues it again: each effect runs once per mount. For the item list and the
  state list (\<open>list_request\<close>), the invariant \<open>no_load q m\<close> says that while \<open>m\<close>
  is the latest instance, its form (if mounted) shows that list empty and no
  request of it for that list is in flight; every step preserves it, so a
  failed list load leaves that form without the list for good.
\<close>

section \<open>Definitions\<close>

fun list_request :: "'c request \<Rightarrow> bool" where
  "list_request ItemsRequest = True"
| "list_request UfsRequest = True"
| "list_request _ = False"

fun loaded_list_empty :: "'c request \<Rightarrow> 'c cps \<Rightarrow> bool" where
  "loaded_list_empty ItemsRequest st = (items st = [])"
| "loaded_list_empty UfsRequest st = (ufs st = [])"
| "loaded_list_empty _ st = True"

definition no_load :: "'c request \<Rightarrow> nat \<Rightarrow> 'c app \<Rightarrow> bool" where
  "no_load q m s \<longleftrightarrow>
     m \<le> mounts s \<and>
     (mounts s = m \<longrightarrow> pred_option (loaded_list_empty q) (page s) \<and> count_list (pending s) (m, q) = 0)"

definition sample_mounted :: "int app" where
  "sample_mounted = app_step app_init ClickLink"

section \<open>Lemmas\<close>

lemma no_load_navigate: "no_load q m s \<Longrightarrow> no_load q m (navigate r s)"
  by (auto simp: no_load_def navigate_def)

lemma no_load_alerts [simp]: "no_load q m (s\<lparr>alerts := a\<rparr>) = no_load q m s"
  by (simp add: no_load_def)

lemma loaded_list_empty_page_step [simp]:
  "loaded_list_empty q (fst (page_step st e)) = loaded_list_empty q st"
  by (cases q) simp_all

lemma page_step_no_list_request:
  "list_request q \<Longrightarrow> count_list (snd (page_step st e)) q = 0"
  using page_step_no_load_request [of st e] by (cases q) simp_all

lemma loaded_list_empty_apply_response:
  "list_request q \<Longrightarrow> q' \<noteq> q \<Longrightarrow> loaded_list_empty q (apply_response q' r st) = loaded_list_empty q st"
  by (cases q) (simp_all add: apply_response_items apply_response_ufs split: request.splits)

lemma no_load_page_event:
  assumes inv: "no_load q m s" and q: "list_request q" shows "no_load q m (app_step s (PageEvent e))"
proof (cases "page s")
  case None
  with inv show ?thesis by simp
next
  case (Some st)
  obtain st' qs where ps: "page_step st e = (st', qs)" by fastforce
  have "count_list qs q = 0" "loaded_list_empty q st' = loaded_list_empty q st"
    using page_step_no_list_request [OF q, of st e] loaded_list_empty_page_step [of q st e] ps by simp_all
  with inv Some ps show ?thesis
    by (auto simp: no_load_def count_list_tagged_requests)
qed

lemma no_load_deliver:
  assumes inv: "no_load q m s" and q: "list_request q" shows "no_load q m (app_step s (Deliver k r))"
proof (cases "k < length (pending s)")
  case False
  with inv show ?thesis by simp
next
  case k: True
  obtain i q' where pk: "pending s ! k = (i, q')" by fastforce
  let ?s1 = "s\<lparr>pending := remove_nth k (pending s)\<rparr>"
  have s1: "no_load q m ?s1"
    using inv k by (auto simp: no_load_def count_list_remove_nth)
  have "no_load q m (complete i q' r ?s1)"
  proof (cases "\<exists>d. q' = PointsPost d")
    case True
    then show ?thesis using s1 by (cases r) (auto simp: no_load_navigate)
  next
    case False
    have "loaded_list_empty q (apply_response q' r st)"
      if "i = m" "mounts s = m" "loaded_list_empty q st" for st
    proof -
      have "q' \<noteq> q"
        using inv that(1,2) count_list_nth_pos [OF k pk] by (auto simp: no_load_def)
      then show ?thesis using that(3) loaded_list_empty_apply_response [OF q] by simp
    qed
    with s1 False show ?thesis
      by (cases "page s") (auto simp: complete_callback no_load_def)
  qed
  with k pk show ?thesis by simp
qed

lemma no_load_step: "no_load q m s \<Longrightarrow> list_request q \<Longrightarrow> no_load q m (app_step s e)"
proof (cases e)
  case ClickLink
  assume "no_load q m s"
  then show ?thesis using ClickLink by (simp add: no_load_navigate)
next
  case (PageEvent pe)
  assume "no_load q m s" "list_request q"
  then show ?thesis unfolding PageEvent by (rule no_load_page_event)
next
  case (Deliver k r)
  assume "no_load q m s" "list_request q"
  then show ?thesis unfolding Deliver by (rule no_load_deliver)
qed

lemma no_load_run: "no_load q m s \<Longrightarrow> list_request q \<Longrightarrow> no_load q m (app_run s es)"
  by (induction es arbitrary: s) (simp_all del: app_step.simps add: no_load_step)

lemma no_load_after_reject:
  assumes r: "reachable s" and p: "page s = Some st" and q: "list_request q"
    and k: "k < length (pending s)" and pk: "pending s ! k = (mounts s, q)"
  shows "no_load q (mounts s) (app_step s (Deliver k Rejected))"
proof -
  have inv: "loaded_inv s" using reachable_loaded_inv [OF r] by simp
  have pos: "0 < count_list (pending s) (mounts s, q)" by (rule count_list_nth_pos [OF k pk])
  have c1: "count_list (pending s) (mounts s, q) \<le> 1" and e: "loaded_list_empty q st"
    using inv p pos q by (cases q; simp add: loaded_inv_def)+
  with pos k pk p q show ?thesis
    by (cases q) (simp_all add: no_load_def count_list_remove_nth)
qed

lemma sample_mounted_eq:
  "sample_mounted =
     \<lparr>route = CreatePointRoute, page = Some create_point_init, mounts = 1,
      pending = [(1, GeolocationRequest), (1, ItemsRequest), (1, UfsRequest)], alerts = []\<rparr>"
  by (simp add: sample_mounted_def app_simps mount_requests_eq)

section \<open>Properties\<close>

text \<open>
  C24. A failed list load is never retried: if the mounted form's request for
  the item list or for the state list is rejected, then in every later state in
  which the same instance is still mounted, the form shows that list empty (no
  tile to select, or only the placeholder state).
\<close>

theorem list_failure_not_retried:
  assumes "reachable s" and "page s = Some st" and "list_request q"
    and "k < length (pending s)" and "pending s ! k = (mounts s, q)"
    and "mounts (app_run (app_step s (Deliver k Rejected)) es) = mounts s"
    and "page (app_run (app_step s (Deliver k Rejected)) es) = Some st'"
  shows "loaded_list_empty q st'"
  using no_load_run [OF no_load_after_reject [OF assms(1-5)] assms(3), of es] assms(6,7)
  by (simp add: no_load_def)

section \<open>Witnesses\<close>

text \<open>
  Witness of C24: the state list of a freshly mounted form fails, the device
  position arrives and the item list too; the form still lists no state.
\<close>

theorem list_failure_not_retried_witness:
  "ufs (the (page (app_run (app_step sample_mounted (Deliver 2 Rejected))
     [Deliver 0 (GeoPosition 1 2), Deliver 0 (ItemsData [])]))) = []"
proof -
  have r: "reachable sample_mounted" unfolding sample_mounted_def by (rule reachable.step [OF reachable.init])
  have p: "page sample_mounted = Some create_point_init" by (simp add: sample_mounted_eq)
  have k: "2 < length (pending sample_mounted)" and pk: "pending sample_mounted ! 2 = (mounts sample_mounted, UfsRequest)"
    by (simp_all add: sample_mounted_eq)
  let ?t = "app_run (app_step sample_mounted (Deliver 2 Rejected)) [Deliver 0 (GeoPosition 1 2), Deliver 0 (ItemsData [])]"
  have m: "mounts ?t = mounts sample_mounted" and p': "page ?t = Some (the (page ?t))"
    by (simp_all add: sample_mounted_eq app_simps)
  have q: "list_request (UfsRequest :: int request)" by simp
  show ?thesis using list_failure_not_retried [OF r p q k pk m p'] by simp
qed

end
