(* ===== verification/Ordering.thy ===== *)
theory Ordering
  imports App
begin

text \<open>
  The order in which replies arrive. Each \<open>then\<close> callback of
  \<open>src/src/pages/CreatePoint/index.tsx\<close> (lines 56--82) calls one state setter;
  the continuation of the submission calls none of them. Two callbacks that call
  different setters write different fields, so their replies can be delivered in
  either order with the same result: the only order-dependence of the page is
  between two replies for the same setter, which in reachable states means two
  city replies (by C5 the one delivered last wins).
\<close>

section \<open>Definitions\<close>

fun callback_setter :: "'c request \<Rightarrow> string option" where
  "callback_setter GeolocationRequest = Some ''setInitialPosition''"
| "callback_setter ItemsRequest = Some ''setItems''"
| "callback_setter UfsRequest = Some ''setUfs''"
| "callback_setter (CitiesRequest uf) = Some ''setCities''"
| "callback_setter (PointsPost data) = None"

section \<open>Lemmas\<close>

lemma apply_response_commute:
  "callback_setter q1 \<noteq> callback_setter q2 \<Longrightarrow>
   apply_response q1 r1 (apply_response q2 r2 st) = apply_response q2 r2 (apply_response q1 r1 st)"
  by (cases q1; cases q2; cases r1; cases r2) simp_all

lemma complete_pending_update:
  "complete i q r (s\<lparr>pending := P\<rparr>) = (complete i q r s)\<lparr>pending := P\<rparr>"
  by (cases "\<exists>d. q = PointsPost d")
     (auto simp: complete_callback navigate_def split: response.splits option.splits)

lemma complete_post_commute:
  assumes "page s \<noteq> None \<longrightarrow> route s = CreatePointRoute" and "\<forall>d. q \<noteq> PointsPost d"
  shows "complete i1 (PointsPost d1) r1 (complete i q r s) = complete i q r (complete i1 (PointsPost d1) r1 s)"
  using assms by (cases r1) (auto simp: complete_callback navigate_def split: option.splits)

lemma complete_commute:
  assumes inv: "page s \<noteq> None \<longrightarrow> route s = CreatePointRoute"
    and set: "callback_setter q1 \<noteq> callback_setter q2"
  shows "complete i1 q1 r1 (complete i2 q2 r2 s) = complete i2 q2 r2 (complete i1 q1 r1 s)"
proof (cases "\<exists>d. q1 = PointsPost d")
  case True
  then obtain d where "q1 = PointsPost d" by blast
  moreover with set have "\<forall>d. q2 \<noteq> PointsPost d" by auto
  ultimately show ?thesis using complete_post_commute [OF inv] by simp
next
  case n1: False
  show ?thesis
  proof (cases "\<exists>d. q2 = PointsPost d")
    case True
    then obtain d where "q2 = PointsPost d" by blast
    then show ?thesis using complete_post_commute [OF inv] n1 by simp
  next
    case False
    with n1 set show ?thesis
      by (cases "page s") (auto simp: complete_callback apply_response_commute)
  qed
qed

lemma remove_nth_nth_below: "k1 < k2 \<Longrightarrow> k2 < length xs \<Longrightarrow> remove_nth k2 xs ! k1 = xs ! k1"
  by (simp add: remove_nth_def nth_append)

lemma remove_nth_nth_above: "k1 < k2 \<Longrightarrow> k2 < length xs \<Longrightarrow> remove_nth k1 xs ! (k2 - 1) = xs ! k2"
proof (induction xs arbitrary: k1 k2)
  case Nil
  then show ?case by simp
next
  case (Cons x xs)
  then obtain k2' where k2: "k2 = Suc k2'" by (cases k2) auto
  show ?case
  proof (cases k1)
    case 0
    with k2 show ?thesis by (simp add: remove_nth_Cons)
  next
    case (Suc k1')
    with Cons.prems k2 obtain k2'' where "k2' = Suc k2''" by (cases k2') auto
    with Suc Cons.prems Cons.IH [of k1' k2'] k2 show ?thesis by (simp add: remove_nth_Cons)
  qed
qed

lemma remove_nth_swap:
  "k1 < k2 \<Longrightarrow> k2 < length xs \<Longrightarrow> remove_nth (k2 - 1) (remove_nth k1 xs) = remove_nth k1 (remove_nth k2 xs)"
proof (induction xs arbitrary: k1 k2)
  case Nil
  then show ?case by simp
next
  case (Cons x xs)
  then obtain k2' where k2: "k2 = Suc k2'" by (cases k2) auto
  show ?case
  proof (cases k1)
    case 0
    with k2 show ?thesis by (simp add: remove_nth_Cons)
  next
    case (Suc k1')
    with Cons.prems k2 obtain k2'' where "k2' = Suc k2''" by (cases k2') auto
    with Suc Cons.prems Cons.IH [of k1' k2'] k2 show ?thesis by (simp add: remove_nth_Cons)
  qed
qed

lemma deliver_pending:
  "k < length (pending s) \<Longrightarrow> pending s ! k = (i, q) \<Longrightarrow>
   app_step s (Deliver k r) = complete i q r (s\<lparr>pending := remove_nth k (pending s)\<rparr>)"
  by simp

section \<open>Properties\<close>

text \<open>
  C27. The four data sources of the form load independently: whatever the
  device position, the item list and the state list are, the three replies to
  the mount requests can arrive in any of the six orders, and every order ends
  in the same state, with all three loaded and nothing pending.
\<close>

theorem mount_loads_any_order:
  "list_all (\<lambda>es. app_run (app_step (app_init :: 'c::zero app) ClickLink) es =
       \<lparr>route = CreatePointRoute,
        page = Some (create_point_init\<lparr>initialPosition := (lat, lng), items := xs, ufs := map sigla us\<rparr>),
        mounts = 1, pending = [], alerts = []\<rparr>)
     [[Deliver 0 (GeoPosition lat lng), Deliver 0 (ItemsData xs), Deliver 0 (UfsData us)],
      [Deliver 0 (GeoPosition lat lng), Deliver 1 (UfsData us), Deliver 0 (ItemsData xs)],
      [Deliver 1 (ItemsData xs), Deliver 0 (GeoPosition lat lng), Deliver 0 (UfsData us)],
      [Deliver 1 (ItemsData xs), Deliver 1 (UfsData us), Deliver 0 (GeoPosition lat lng)],
      [Deliver 2 (UfsData us), Deliver 0 (GeoPosition lat lng), Deliver 0 (ItemsData xs)],
      [Deliver 2 (UfsData us), Deliver 1 (ItemsData xs), Deliver 0 (GeoPosition lat lng)]]"
  by (simp add: app_simps page_simps mount_requests_eq)

text \<open>
  C28. In every reachable state, two pending replies whose callbacks call
  different state setters (or of which one is the submission's, which calls
  none) can be delivered in either order with the same result. The index of
  the later request drops by one once the earlier one is delivered.
\<close>

theorem deliver_order_irrelevant:
  assumes r: "reachable s" and k: "k1 < k2" "k2 < length (pending s)"
    and set: "callback_setter (snd (pending s ! k1)) \<noteq> callback_setter (snd (pending s ! k2))"
  shows "app_step (app_step s (Deliver k1 r1)) (Deliver (k2 - 1) r2) =
         app_step (app_step s (Deliver k2 r2)) (Deliver k1 r1)"
proof -
  let ?P = "pending s"
  obtain i1 q1 where p1: "?P ! k1 = (i1, q1)" by fastforce
  obtain i2 q2 where p2: "?P ! k2 = (i2, q2)" by fastforce
  have inv: "page s \<noteq> None \<longrightarrow> route s = CreatePointRoute"
    using reachable_app_inv_step [OF r] by (simp add: app_inv_def)
  let ?R = "remove_nth k1 (remove_nth k2 ?P)"
  let ?a = "app_step s (Deliver k1 r1)" and ?b = "app_step s (Deliver k2 r2)"
  have a: "?a = complete i1 q1 r1 (s\<lparr>pending := remove_nth k1 ?P\<rparr>)"
    using k p1 by simp
  have b: "?b = complete i2 q2 r2 (s\<lparr>pending := remove_nth k2 ?P\<rparr>)"
    using k p2 by simp
  have pa: "k2 - 1 < length (pending ?a)" "pending ?a ! (k2 - 1) = (i2, q2)"
    using a k remove_nth_nth_above [OF k] p2 by (simp_all del: app_step.simps)
  have pb: "k1 < length (pending ?b)" "pending ?b ! k1 = (i1, q1)"
    using b k remove_nth_nth_below [OF k] p1 by (simp_all del: app_step.simps)
  have "app_step ?a (Deliver (k2 - 1) r2) = complete i2 q2 r2 (complete i1 q1 r1 (s\<lparr>pending := ?R\<rparr>))"
    using deliver_pending [OF pa] a remove_nth_swap [OF k] by (simp del: app_step.simps add: complete_pending_update)
  also have "\<dots> = complete i1 q1 r1 (complete i2 q2 r2 (s\<lparr>pending := ?R\<rparr>))"
    using complete_commute [of "s\<lparr>pending := ?R\<rparr>" q1 q2] inv set p1 p2 by simp
  also have "\<dots> = app_step ?b (Deliver k1 r1)"
    using deliver_pending [OF pb] b by (simp del: app_step.simps add: complete_pending_update)
  finally show ?thesis .
qed

section \<open>Witnesses\<close>

text \<open>
  Witness of C28: on a freshly mounted form, the item list and the state list
  can arrive in either order.
\<close>

theorem deliver_order_irrelevant_witness:
  "app_step (app_step (app_step (app_init :: int app) ClickLink) (Deliver 1 (ItemsData []))) (Deliver 1 (UfsData [])) =
   app_step (app_step (app_step (app_init :: int app) ClickLink) (Deliver 2 (UfsData []))) (Deliver 1 (ItemsData []))"
proof -
  have r: "reachable (app_step (app_init :: int app) ClickLink)" by (rule reachable.step [OF reachable.init])
  have k: "1 < (2::nat)" "2 < length (pending (app_step (app_init :: int app) ClickLink))"
    by (simp_all add: app_simps mount_requests_eq)
  have set: "callback_setter (snd (pending (app_step (app_init :: int app) ClickLink) ! 1)) \<noteq>
             callback_setter (snd (pending (app_step (app_init :: int app) ClickLink) ! 2))"
    by (simp add: app_simps mount_requests_eq)
  show ?thesis using deliver_order_irrelevant [OF r k set, of "ItemsData []" "UfsData []"] by simp
qed

end
