(* ===== verification/FormView.thy ===== *)
theory FormView
  imports MapView
begin

text \<open>
  The render of the registration form (\<open>src/src/pages/CreatePoint/index.tsx\<close>
  lines 160--251) as an element tree whose interactive nodes carry the handler
  the JSX binds: the form's \<open>onSubmit\<close>, the \<open>Dropzone\<close>'s
  \<open>onFileUploaded\<close>, the inputs' \<open>onChange\<close>, the selects' \<open>onChange\<close> with their
  options and value, the map's \<open>onClick\<close>, and each item tile's \<open>onClick\<close>.
  \<open>fires\<close> says which page events a node can produce under the browser's
  semantics: an input fires \<open>change\<close> with its own \<open>name\<close> and any value; a
  controlled select fires it only for one of its options other than the shown
  one; a map click reports any coordinates; a tile reports its own id; the form
  submits only when every input satisfies the constraint of its type
  (\<open>satisfies_constraints\<close>: an \<open>email\<close> input must be empty or hold a valid
  address, \<open>Form.email_constraint_ok\<close>). An input carries its current value; the
  inputs are uncontrolled, and that value is the one last reported to
  \<open>handleInputChange\<close>, stored in \<open>formData\<close>. The property shows that the events the render can fire are exactly
  those \<open>Page.page_event_enabled\<close> admits, which is the view constraint the
  application model runs on. Text is kept as JavaScript strings of UTF-16 code
  units (the c with cedilla is 0xE7), with the entities of JSX string attributes
  decoded (\<open>&amp;\<close> is \<open>&\<close>).
\<close>

section \<open>Definitions\<close>

datatype 'c form_node =
    FForm "'c form_node list"
  | FElement string "(string \<times> string) list" "'c form_node list"
  | FText string
  | FImg string string
  | FDropzone
  | FInput string string string
  | FSelect string string "(string \<times> string) list" "string \<Rightarrow> 'c page_event"
  | FMap "'c map_props" "'c form_node list"
  | FTile js_int string "'c form_node list"

fun input_constraint_ok :: "string \<Rightarrow> string \<Rightarrow> bool" where
  "input_constraint_ok type value = (type \<noteq> ''email'' \<or> email_constraint_ok value)"

fun satisfies_constraints :: "'c form_node \<Rightarrow> bool"
  and all_satisfy_constraints :: "'c form_node list \<Rightarrow> bool" where
  "satisfies_constraints (FForm children) = all_satisfy_constraints children"
| "satisfies_constraints (FElement tag attrs children) = all_satisfy_constraints children"
| "satisfies_constraints (FInput type name value) = input_constraint_ok type value"
| "satisfies_constraints (FMap props children) = all_satisfy_constraints children"
| "satisfies_constraints (FTile i cls children) = all_satisfy_constraints children"
| "satisfies_constraints _ = True"
| "all_satisfy_constraints [] = True"
| "all_satisfy_constraints (c # cs) = (satisfies_constraints c \<and> all_satisfy_constraints cs)"

fun fires :: "'c form_node \<Rightarrow> 'c page_event \<Rightarrow> bool"
  and fires_any :: "'c form_node list \<Rightarrow> 'c page_event \<Rightarrow> bool" where
  "fires (FForm children) e = ((e = SubmitForm \<and> all_satisfy_constraints children) \<or> fires_any children e)"
| "fires (FElement tag attrs children) e = fires_any children e"
| "fires (FText s) e = False"
| "fires (FImg src alt) e = False"
| "fires FDropzone e = (case e of FileUploaded f \<Rightarrow> True | _ \<Rightarrow> False)"
| "fires (FInput type name value) e = (case e of InputChange n v \<Rightarrow> n = name | _ \<Rightarrow> False)"
| "fires (FSelect name value opts onChange) e =
     list_ex (\<lambda>v. e = onChange v \<and> shown_option value opts \<noteq> Some v) (map fst opts)"
| "fires (FMap props children) e = ((case e of MapClick lat lng \<Rightarrow> True | _ \<Rightarrow> False) \<or> fires_any children e)"
| "fires (FTile i cls children) e = (e = SelectItem i \<or> fires_any children e)"
| "fires_any [] e = False"
| "fires_any (c # cs) e = (fires c e \<or> fires_any cs e)"

definition tile_layer :: "'c form_node" where
  "tile_layer =
     FElement ''TileLayer''
       [(''attribution'', ''&copy <a href='' @ CHR 0x22 # ''http://osm.org/copyright'' @ CHR 0x22 #
                          ''>OpenStreetMap</a> contributors''),
        (''url'', ''https://{s}.tile.openstreetmap.org/{z}/{x}/{y}.png'')] []"

definition item_tile :: "'c cps \<Rightarrow> item \<Rightarrow> 'c form_node" where
  "item_tile st it =
     FTile (item_id it) (item_class st it) [FImg (image_url it) (title it), FElement ''span'' [] [FText (title it)]]"

definition create_point_form :: "'c cps \<Rightarrow> 'c form_node" where
  "create_point_form st =
     FForm
       [FElement ''h1'' [] [FText ''Cadastro do '', FElement ''br'' [] [], FText '' ponto de coleta''],
        FDropzone,
        FElement ''fieldset'' []
          [FElement ''legend'' [] [FElement ''h2'' [] [FText ''Dados'']],
           FElement ''div'' [(''className'', ''field'')]
             [FElement ''label'' [(''htmlFor'', ''name'')] [FText ''Nome da Entidade''], FInput ''text'' ''name'' (js_field (formData st) ''name'')],
           FElement ''div'' [(''className'', ''field-group'')]
             [FElement ''div'' [(''className'', ''field'')]
                [FElement ''label'' [(''htmlFor'', ''email'')] [FText ''E-mail''], FInput ''email'' ''email'' (js_field (formData st) ''email'')],
              FElement ''div'' [(''className'', ''field'')]
                [FElement ''label'' [(''htmlFor'', ''whatsapp'')] [FText ''Whatsapp''], FInput ''text'' ''whatsapp'' (js_field (formData st) ''whatsapp'')]]],
        FElement ''fieldset'' []
          [FElement ''legend'' []
             [FElement ''h2'' [] [FText (''Endere'' @ CHR 0xE7 # ''o'')],
              FElement ''span'' [] [FText (''Selecione o endere'' @ CHR 0xE7 # ''o no mapa'')]],
           FMap (map_view st) [tile_layer, FElement ''Marker'' [] []],
           FElement ''div'' [(''className'', ''field-group'')]
             [FElement ''div'' [(''className'', ''field'')]
                [FElement ''label'' [(''htmlFor'', ''uf'')] [FText ''Estado (UF)''],
                 FSelect ''uf'' (selectedUf st) (uf_options st) SelectUf],
              FElement ''div'' [(''className'', ''field'')]
                [FElement ''label'' [(''htmlFor'', ''city'')] [FText ''Cidade''],
                 FSelect ''city'' (selectedCity st) (city_options st) SelectCity]]],
        FElement ''fieldset'' []
          [FElement ''legend'' []
             [FElement ''h2'' [] [FText ''Itens de Coleta''],
              FElement ''span'' [] [FText ''Selecione um ou mais itens abaixo'']],
           FElement ''ul'' [(''className'', ''items-grid'')] (map (item_tile st) (items st))],
        FElement ''button'' [(''type'', ''submit'')] [FText ''Cadastrar ponto de coleta'']]"

section \<open>Lemmas\<close>

lemma fires_any_append [simp]: "fires_any (xs @ ys) e = (fires_any xs e \<or> fires_any ys e)"
  by (induction xs) auto

lemma all_satisfy_constraints_tiles [simp]:
  "all_satisfy_constraints (map (item_tile st) its)"
  by (induction its) (simp_all add: item_tile_def)

lemma fires_any_tiles:
  "fires_any (map (item_tile st) its) e = (\<exists>i\<in>set (map item_id its). e = SelectItem i)"
  by (induction its) (auto simp: item_tile_def)

section \<open>Properties\<close>

text \<open>
  C10. The rendered form can fire exactly the events the application model
  admits: an event is produced by some node of \<open>create_point_form st\<close> if and
  only if \<open>page_event_enabled st\<close> holds of it.
\<close>

theorem form_events_enabled: "fires (create_point_form st) e = page_event_enabled st e"
  by (cases e) (auto simp: create_point_form_def tile_layer_def fires_any_tiles form_fields_def list_ex_iff)

end
