(* ===== verification/Spec2Isabelle.thy ===== *)
theory Spec2Isabelle
  imports Settle MapView Payload Views Failures Ordering FormView
begin

text \<open>
  \<^bold>\<open>A verification model of the Ecoleta registration web client.\<close>

  \<^bold>\<open>The program.\<close> The repository holds two React screens.
  \<open>src/src/pages/Home/index.tsx\<close> is a static landing page with one link to
  \<open>/create-point\<close>. \<open>src/src/pages/CreatePoint/index.tsx\<close> is the form that
  registers a collection point. It keeps its view state in \<open>useState\<close> hooks.
  On mount its effects ask for the device position, load the item list from the
  backend and load the list of states (UFs) from the IBGE geography service.
  Whenever the selected state changes, an effect loads that state's cities,
  unless the placeholder \<open>'0'\<close> is selected. The handlers toggle item ids, record
  the map click, store the typed contact data and the dropped file. The submit
  handler builds a multipart payload, awaits the POST, then shows an alert and
  pushes \<open>/\<close>.

  \<^bold>\<open>The theories.\<close>
  \<^item> \<open>Prelude\<close>: the JavaScript built-ins the page calls, as executable HOL:
    \<open>findIndex\<close> (\<open>js_find_index\<close>), \<open>join\<close> (\<open>js_join\<close>), \<open>String(n)\<close> of an
    integer (\<open>js_int_to_string\<close>), and the reading back of the joined field
    (\<open>split_on\<close>, \<open>parse_int\<close>). It proves the decimal round trip
    \<open>parse_int (js_int_to_string i) = Some i\<close> and that a comma-join of
    comma-free pieces splits back into the pieces.
  \<^item> \<open>Selection\<close>: the list operation of \<open>handleSelectItem\<close> (\<open>toggle_selected\<close>),
    its abstract specification \<open>set_toggle\<close> on sets, the refinement and the
    no-duplicates invariant.
  \<^item> \<open>Form\<close>: the \<open>formData\<close> object as a map from keys to strings
    (\<open>input_change\<close> is \<open>handleInputChange\<close>'s update), the values of a
    \<open>FormData\<close> payload, the invariant that the three contact keys are
    defined, and the browser's \<open>type="email"\<close> constraint
    (\<open>email_constraint_ok\<close>, the HTML Standard's valid e-mail address) that
    gates submission.
  \<^item> \<open>Page\<close>: the state of \<open>CreatePoint\<close> as the record \<open>create_point_state\<close>
    (one field per hook), the requests it starts and their callbacks
    (\<open>apply_response\<close>), each handler (\<open>handleSelectUf\<close> with the
    \<open>[selectedUf]\<close> effect, \<open>handleSelectCity\<close>, \<open>handleMapClick\<close>,
    \<open>handleSelectItem\<close>, \<open>handleInputChange\<close>, \<open>setSelectedFile\<close>, and the
    synchronous part of \<open>handleSubmit\<close> with the payload \<open>submit_form_data\<close>).
    It also models the view as far as it restricts the events a user can cause:
    the option lists, the option a controlled select shows (\<open>shown_option\<close>),
    and the rendered tiles (\<open>page_event_enabled\<close>).
  \<^item> \<open>App\<close>: the routes and the link of each page, mounting a fresh instance of
    the form (numbered by \<open>mounts\<close>), the requests in flight tagged with their
    instance, the completion of any one of them with any response
    (\<open>complete\<close>), the continuation of \<open>handleSubmit\<close>, the step function
    \<open>app_step\<close>, runs \<open>app_run\<close>, and the reachable states \<open>reachable\<close>.
  \<^item> \<open>Cascade\<close>: the contract the spec assumes of the IBGE service (each state has
    a city list \<open>svc\<close>; the mounted instance's city replies arrive in request
    order) as a restriction of the environment, \<open>in_order_reachable svc\<close>, a
    subset of \<open>reachable\<close>; and the invariant \<open>cities_current\<close> that says what the
    city list is under it.
  \<^item> \<open>Settle\<close>: \<open>settle svc s\<close>, which delivers the pending city requests of the
    mounted instance oldest first, each by one \<open>app_step\<close>, until none is left.
  \<^item> \<open>MapView\<close>: the props of the Leaflet map (lines 196--205): the centre is
    \<open>initialPosition\<close>, the zoom 15, the marker \<open>selectedPosition\<close>.
  \<^item> \<open>Payload\<close>: the \<open>items\<close> field of the payload and its bound.
  \<^item> \<open>Views\<close>: the static markup of \<open>Home\<close> (lines 8--31) and of the header of
    \<open>CreatePoint\<close> (lines 150--158) as an element tree, with the links it renders.
  \<^item> \<open>Failures\<close>: the error paths of the load requests; the invariant
    \<open>no_load\<close> of an instance whose item list or state list failed to load.
  \<^item> \<open>Ordering\<close>: the state setter each callback calls
    (\<open>callback_setter\<close>), and the commutation of deliveries.
  \<^item> \<open>FormView\<close>: the render of the registration form (lines 160--251) as
    an element tree whose nodes carry the handlers the JSX binds, and
    \<open>fires\<close>, the events each node can produce in the browser, submission
    only when every input satisfies its type's constraint.

  \<^bold>\<open>Interaction and time.\<close> A step is one browser event, together with the
  re-render and the passive effects it causes, or the completion of one pending
  request. The environment picks the completion, so requests complete in any
  order, and they may fail (\<open>Rejected\<close>). A callback changes the page only when
  its instance is still mounted. The submission's continuation calls
  \<open>alert\<close> and \<open>history.push\<close> without that check, as the code does.

  \<^bold>\<open>What is proved.\<close>
  \<^item> Invariants (\<open>App\<close>): in every reachable state the form is mounted exactly on
    \<open>/create-point\<close>, its selection has no duplicates and its contact fields
    are defined (C1); each instance loads its item and state lists once, so
    every selected id and the selected state are among the listed ones (C18),
    and the selection has at most as many ids as there are categories (C23,
    \<open>Payload\<close>).
  \<^item> Functional behaviour of the handlers and callbacks, errors included: the
    placeholder starts no request (C3); a state selection starts exactly the
    city request (C4); a city reply replaces the list with exactly the returned
    names (C5); a failed submission changes nothing but the pending list (C6);
    a successful one acknowledges and navigates home, whichever form is mounted
    then (C7); a map click sets the position (C17); a typed value reaches the
    payload under its input's name (C16); the payload's keys and order (C13)
    and its items field when nothing is selected (C14).
  \<^item> The selection (\<open>Selection\<close>, \<open>Page\<close>, \<open>Views\<close>): the list refines set toggling
    (C2) and equals a reference definition (C12); toggling twice moves the id
    to the end (C11); a tile click flips only that tile's class (C26).
  \<^item> Round trip (\<open>Page\<close>): the \<open>items\<close> field decodes back to the selected ids
    (C9).
  \<^item> The view (\<open>FormView\<close>): the rendered form fires exactly the events
    \<open>page_event_enabled\<close> admits, submission included only while the email
    value passes the \<open>type="email"\<close> constraint (C10). Two submissions while
    the first is in flight send two POSTs (C15).
  \<^item> Across components (this theory): while the city is still \<open>'0'\<close>, the select
    shows the first city, choosing it fires nothing and \<open>"0"\<close> is submitted (C8);
    a rejected data reply changes nothing but the pending list (C25).
  \<^item> Refinement and liveness of the cascade (\<open>Cascade\<close>, \<open>Settle\<close>): under the
    in-order contract, once no city request of the instance is pending, the
    listed cities are the service's list for the selected state (C19); from
    every state reachable under the contract, delivering the pending city
    replies reaches a state whose form differs only in showing the selected
    state's cities (C20).
  \<^item> Map (\<open>MapView\<close>): no reply moves the marker (C21); in every run without a
    map click the submitted position is (0, 0), the geolocation reply included
    (C22), where the spec says the position is initialised from the device.
  \<^item> Errors (\<open>Failures\<close>): a failed item-list or state-list request is never
    retried, so that form never shows the list (C24).
  \<^item> Ordering (\<open>Ordering\<close>): the three mount replies give the same state in
    all six arrival orders (C27); in every reachable state two deliveries whose
    callbacks call different setters commute (C28), so the only order-dependence
    is between two city replies.

  \<^bold>\<open>Bounds.\<close> No loop of the page can diverge: every function is structural
  or has a measure, so no fuel is needed. \<open>settle\<close> is a \<open>function\<close> whose
  termination measure is the number of pending requests: each of its steps
  removes one, and a city delivery adds none. Ids are integers printed by
  \<open>String(n)\<close>; this is exact below \<open>10^21\<close>. Coordinates are a type parameter
  \<open>'c\<close>, and \<open>String(latitude)\<close> is kept as the number (\<open>FormNumber\<close>).

  \<^bold>\<open>Not modelled.\<close> These are outside the repository's sources or are pure
  rendering:
  \<^item> the backend and the IBGE service, beyond the shape of their replies and
    the city service's in-order contract of \<open>Cascade\<close>;
  \<^item> Leaflet's map, beyond its props and the click callback;
  \<^item> the \<open>Dropzone\<close> component, whose source is not under \<open>src/\<close>; its contract,
    from the spec, is that it reports the accepted file;
  \<^item> the route table, whose source is not under \<open>src/\<close>; the two routes are taken
    from the spec;
  \<^item> the styles: class names are kept as attributes of the element trees,
    and the CSS and SVG assets they refer to are not interpreted;
  \<^item> the module imports, the component declarations, \<open>useHistory()\<close> and the
    \<open>export default\<close> lines, which have no behaviour of their own (the router
    they bind is the spec-modelled \<open>navigate\<close>);
  \<^item> the value sanitization of the email input (the browser strips newlines
    and surrounding whitespace before the constraint check);
  \<^item> the formatting of doubles;
  \<^item> the browser's back button.

  \<^bold>\<open>Plan.\<close> The components were modelled in this order, the most important
  behaviour first: the cascade of state and city requests with its asynchronous
  completions; the selection; the submission and its continuation; the form
  fields; navigation; then the contract of the cascade with its settling, the
  map, the static views, the error paths, the order of replies, and the
  render of the form with its handlers and its submit constraint. Every line
  of the two source files that has behaviour is translated; what remains is
  not code of the repository.
  The request tagging of spec section 9 is a proposed redesign. An invariant
  tying \<open>selectedCity\<close> to the listed cities does not hold of the code: C8 and
  C4 (which keeps \<open>selectedCity\<close> on a state change) are its counterexamples.
\<close>

section \<open>Properties across components\<close>

definition sample_cities_sp :: "int response" where
  "sample_cities_sp = CitiesData [\<lparr>nome = ''Campinas''\<rparr>, \<lparr>nome = ''Santos''\<rparr>]"

lemma apply_response_rejected [simp]: "apply_response q Rejected st = st"
  by (cases q) simp_all

text \<open>
  C8. The city that is submitted is not the one shown. While the selected city
  is still the initial \<open>'0'\<close> and a city list is loaded, the controlled city select
  shows the first city (its value matches no option), choosing that city fires
  no change event, and the payload's city field is \<open>"0"\<close>.
\<close>

theorem city_placeholder_submitted:
  assumes "selectedCity st = ''0''" and "cities st = c # cs" and "''0'' \<notin> set (cities st)"
  shows "shown_option (selectedCity st) (city_options st) = Some c \<and>
         \<not> page_event_enabled st (SelectCity c) \<and>
         form_get (submit_form_data st) ''city'' = Some (FormText ''0'')"
  using assms by (simp add: city_options_def shown_option_def submit_form_data_def Let_def prod.case_eq_if)

text \<open>
  C25. A rejected data request is silent: when the device position, the item
  list, the state list or a city list fails, the reply only leaves the pending
  list; the form keeps what it showed. In particular a failed city request leaves
  the previous state's cities listed, and nothing requests them again.
\<close>

theorem data_rejected_silent:
  assumes "k < length (pending s)" and "pending s ! k = (i, q)" and "\<forall>d. q \<noteq> PointsPost d"
  shows "app_step s (Deliver k Rejected) = s\<lparr>pending := remove_nth k (pending s)\<rparr>"
  using assms by (cases "page s") (simp_all add: complete_callback)

section \<open>Witnesses\<close>

text \<open>Witness of C8: SP is selected and its two cities have arrived.\<close>

theorem city_placeholder_submitted_witness:
  "form_get (submit_form_data (the (page (app_step sample_sp (Deliver 2 sample_cities_sp))))) ''city'' =
   Some (FormText ''0'')"
proof -
  let ?st = "the (page (app_step sample_sp (Deliver 2 sample_cities_sp)))"
  have h: "selectedCity ?st = ''0''" "cities ?st = ''Campinas'' # [''Santos'']" "''0'' \<notin> set (cities ?st)"
    by (simp_all add: sample_sp_eq sample_cities_sp_def create_point_init_def)
  show ?thesis using city_placeholder_submitted [OF h] by simp
qed

text \<open>Witness of C25: the state list of a freshly mounted form is rejected.\<close>

theorem data_rejected_silent_witness:
  "app_step (app_step (app_init :: int app) ClickLink) (Deliver 2 Rejected) =
   (app_step (app_init :: int app) ClickLink)\<lparr>pending := [(1, GeolocationRequest), (1, ItemsRequest)]\<rparr>"
proof -
  have k: "2 < length (pending (app_step (app_init :: int app) ClickLink))"
    and pk: "pending (app_step (app_init :: int app) ClickLink) ! 2 = (1, UfsRequest)"
    and q: "\<forall>d. (UfsRequest :: int request) \<noteq> PointsPost d"
    by (simp_all add: app_simps mount_requests_eq)
  show ?thesis using data_rejected_silent [OF k pk q] by (simp add: app_simps mount_requests_eq)
qed

end
